theory Spec2Isabelle
  imports Main "HOL-Library.Code_Target_Numeral"
begin

section \<open>Text and numbers of the host language\<close>

text \<open>
  The harness is written in TypeScript. Its file parser leans on a handful of built-in
  operations: \<^verbatim>\<open>split('\n')\<close>, \<^verbatim>\<open>trim()\<close>, \<^verbatim>\<open>parseInt\<close>, \<^verbatim>\<open>Number\<close>, \<^verbatim>\<open>String\<close> and
  \<^verbatim>\<open>Array.prototype.push\<close>. This section models them.

  A text is a \<open>string\<close>; every character stands for the UTF-16 code unit of the same
  value, so texts are restricted to code units below 256.
\<close>

definition isWhiteSpace :: "char \<Rightarrow> bool" where
  \<comment> \<open>the white space and line terminators that \<^verbatim>\<open>trim\<close> strips, below 256:
      TAB, LF, VT, FF, CR, SPACE, NBSP\<close>
  "isWhiteSpace c = (of_char c \<in> {9::nat, 10, 11, 12, 13, 32, 160})"

definition trimStart :: "string \<Rightarrow> string" where
  "trimStart s = dropWhile isWhiteSpace s"

definition trim :: "string \<Rightarrow> string" where
  "trim s = rev (dropWhile isWhiteSpace (rev (dropWhile isWhiteSpace s)))"

fun splitLines :: "string \<Rightarrow> string list" where
  \<comment> \<open>\<^verbatim>\<open>content.split('\n')\<close>: the empty text gives one empty line\<close>
  "splitLines [] = [[]]"
| "splitLines (c # cs) =
     (if c = CHR 0x0A then [] # splitLines cs
      else (case splitLines cs of [] \<Rightarrow> [[c]] | l # ls \<Rightarrow> (c # l) # ls))"

definition nonBlankLines :: "string \<Rightarrow> string list" where
  \<comment> \<open>\<^verbatim>\<open>content.split('\n').filter(line => line.trim() !== '')\<close>\<close>
  "nonBlankLines content = filter (\<lambda>line. trim line \<noteq> []) (splitLines content)"

definition lineAt :: "string list \<Rightarrow> nat \<Rightarrow> string option" where
  \<comment> \<open>\<^verbatim>\<open>lines[i]\<close>; \<open>None\<close> is \<^verbatim>\<open>undefined\<close>, the value of a read past the end\<close>
  "lineAt lines i = (if i < length lines then Some (lines ! i) else None)"

subsection \<open>Decimal and hexadecimal digits\<close>

definition isDigit :: "char \<Rightarrow> bool" where
  "isDigit c = (48 \<le> (of_char c :: nat) \<and> (of_char c :: nat) \<le> 57)"

definition digitVal :: "char \<Rightarrow> nat" where
  "digitVal c = of_char c - 48"

definition decValue :: "string \<Rightarrow> nat" where
  "decValue ds = foldl (\<lambda>acc c. acc * 10 + digitVal c) 0 ds"

definition isHexDigit :: "char \<Rightarrow> bool" where
  "isHexDigit c = (isDigit c \<or> (65 \<le> (of_char c :: nat) \<and> (of_char c :: nat) \<le> 70)
      \<or> (97 \<le> (of_char c :: nat) \<and> (of_char c :: nat) \<le> 102))"

definition hexDigitVal :: "char \<Rightarrow> nat" where
  "hexDigitVal c = (if isDigit c then of_char c - 48
      else if of_char c \<le> (70::nat) then of_char c - 55 else of_char c - 87)"

definition hexValue :: "string \<Rightarrow> nat" where
  "hexValue ds = foldl (\<lambda>acc c. acc * 16 + hexDigitVal c) 0 ds"

definition digitChar :: "nat \<Rightarrow> char" where
  "digitChar d = char_of (48 + d)"

function digitsOf :: "nat \<Rightarrow> string" where
  "digitsOf n = (if n < 10 then [digitChar n] else digitsOf (n div 10) @ [digitChar (n mod 10)])"
  by pat_completeness auto
termination
  by (relation "measure id") auto

declare digitsOf.simps [simp del]

definition showInt :: "int \<Rightarrow> string" where
  \<comment> \<open>the decimal numeral of an integer, as \<^verbatim>\<open>String\<close> prints an integral number
      of magnitude at most \<open>2 ^ 53\<close>\<close>
  "showInt n = (if n < 0 then CHR ''-'' # digitsOf (nat (- n)) else digitsOf (nat n))"

subsection \<open>Numbers\<close>

text \<open>
  A number of the host language is an IEEE double. The parser only ever produces numbers
  by \<^verbatim>\<open>parseInt\<close> and by taking the length of an array, so a number is modelled as
  \<^item> \<open>NaN\<close>,
  \<^item> \<open>Exact n\<close>: the integer \<open>n\<close>, of magnitude at most \<open>2 ^ 53\<close>, which a double holds
    exactly (a negative zero is \<open>Exact 0\<close>: it prints as \<^verbatim>\<open>0\<close>, is not above 1 and drives
    no loop iteration, like zero),
  \<^item> \<open>Rounded n\<close>: the double that the engine produces for a digit string of value \<open>n\<close>
    of magnitude above \<open>2 ^ 53\<close>; its magnitude is at least \<open>2 ^ 53\<close>, and its sign is the
    sign of \<open>n\<close>.

  What depends on the rounding of doubles is not computed but left to two parameters,
  collected in an \<open>engine\<close>; every general theorem below holds for every engine.
\<close>

datatype jsnum = NaN | Exact int | Rounded int

record engine =
  roundedToString :: "int \<Rightarrow> string"
    \<comment> \<open>\<^verbatim>\<open>String(x)\<close> for the double \<open>x\<close> denoted by \<open>Rounded n\<close>\<close>
  floatRoundTrips :: "string \<Rightarrow> bool"
    \<comment> \<open>whether \<^verbatim>\<open>!isNaN(Number(t)) && String(Number(t)) === t\<close> for a trimmed text \<open>t\<close>
        that is made of the characters of printed numbers but is not a decimal integer
        of magnitude at most \<open>2 ^ 53\<close>\<close>

definition toNumber :: "int \<Rightarrow> jsnum" where
  "toNumber n = (if \<bar>n\<bar> \<le> 2 ^ 53 then Exact n else Rounded n)"

definition isNaN :: "jsnum \<Rightarrow> bool" where
  "isNaN x = (x = NaN)"

definition jsString :: "engine \<Rightarrow> jsnum \<Rightarrow> string" where
  \<comment> \<open>\<^verbatim>\<open>String(x)\<close>\<close>
  "jsString eng x = (case x of NaN \<Rightarrow> ''NaN'' | Exact n \<Rightarrow> showInt n
                      | Rounded n \<Rightarrow> roundedToString eng n)"

definition greaterThanOne :: "jsnum \<Rightarrow> bool" where
  \<comment> \<open>\<^verbatim>\<open>x > 1\<close>\<close>
  "greaterThanOne x = (case x of NaN \<Rightarrow> False | Exact n \<Rightarrow> 1 < n | Rounded n \<Rightarrow> 0 < n)"

definition signedDigits :: "string \<Rightarrow> bool \<times> string" where
  \<comment> \<open>the first steps of \<^verbatim>\<open>parseInt\<close>: strip leading white space, read and remove a sign\<close>
  "signedDigits s =
     (let t = trimStart s in
      case t of [] \<Rightarrow> (False, [])
      | c # u \<Rightarrow> if c = CHR ''-'' then (True, u) else if c = CHR ''+'' then (False, u)
                 else (False, t))"

definition signedNumber :: "bool \<Rightarrow> nat \<Rightarrow> jsnum" where
  "signedNumber neg v = toNumber (if neg then - int v else int v)"

definition parseInt10 :: "string option \<Rightarrow> jsnum" where
  \<comment> \<open>\<^verbatim>\<open>parseInt(v, 10)\<close>; \<^verbatim>\<open>undefined\<close> is read as the text "undefined", which has no digit\<close>
  "parseInt10 v =
     (case v of None \<Rightarrow> NaN
      | Some s \<Rightarrow>
          (let (neg, u) = signedDigits s; z = takeWhile isDigit u
           in if z = [] then NaN else signedNumber neg (decValue z)))"

definition parseInt :: "string \<Rightarrow> jsnum" where
  \<comment> \<open>\<^verbatim>\<open>parseInt(s)\<close> without a radix: a \<^verbatim>\<open>0x\<close> or \<^verbatim>\<open>0X\<close> prefix selects radix 16\<close>
  "parseInt s =
     (let (neg, u) = signedDigits s in
      if take 2 u = ''0x'' \<or> take 2 u = ''0X'' then
        (let z = takeWhile isHexDigit (drop 2 u)
         in if z = [] then NaN else signedNumber neg (hexValue z))
      else
        (let z = takeWhile isDigit u
         in if z = [] then NaN else signedNumber neg (decValue z)))"

subsection \<open>The simple-number test of a line\<close>

definition integerLiteral :: "string \<Rightarrow> int option" where
  \<comment> \<open>the value of a text that is an optional sign followed by decimal digits only\<close>
  "integerLiteral t =
     (let (neg, u) = (case t of [] \<Rightarrow> (False, [])
                      | c # r \<Rightarrow> if c = CHR ''-'' then (True, r)
                                 else if c = CHR ''+'' then (False, r) else (False, t))
      in if u \<noteq> [] \<and> list_all isDigit u
         then Some (if neg then - int (decValue u) else int (decValue u)) else None)"

definition printedNumberChar :: "char \<Rightarrow> bool" where
  \<comment> \<open>the characters of the texts that \<^verbatim>\<open>String\<close> prints for a number other than NaN\<close>
  "printedNumberChar c = (isDigit c \<or> c \<in> set ''+-.eInfity'')"

definition simpleNumberLine :: "engine \<Rightarrow> string \<Rightarrow> bool" where
  \<comment> \<open>\<^verbatim>\<open>!isNaN(Number(line)) && line.trim() === String(Number(line))\<close>.
      \<^verbatim>\<open>Number\<close> ignores surrounding white space. A decimal integer of magnitude at most
      \<open>2 ^ 53\<close> converts exactly and prints as its decimal numeral. A text with a character
      that no printed number has, and the empty text (which converts to 0), never equal
      what \<^verbatim>\<open>String\<close> prints. Every other text is left to the engine.\<close>
  "simpleNumberLine eng line =
     (let t = trim line in
      case integerLiteral t of
        Some n \<Rightarrow> if \<bar>n\<bar> \<le> 2 ^ 53 then t = showInt n else floatRoundTrips eng t
      | None \<Rightarrow> t \<noteq> [] \<and> list_all printedNumberChar t \<and> floatRoundTrips eng t)"

section \<open>The parser and test harness\<close>

datatype error =
    FailedToLoad string          \<comment> \<open>\<^verbatim>\<open>Failed to load file: ...\<close>\<close>
  | GroupedInputsNotSupported    \<comment> \<open>\<^verbatim>\<open>Grouped inputs are not supported when readInputCasesNumber is false\<close>\<close>
  | NoTestCasesFound             \<comment> \<open>\<^verbatim>\<open>No test cases found in input file\<close>\<close>
  | MismatchedLengths nat nat    \<comment> \<open>\<^verbatim>\<open>Mismatched input/output lengths: input has .. entries, output has .. entries\<close>\<close>
  | NoExpectedOutput nat         \<comment> \<open>\<^verbatim>\<open>No expected output found for test case ..\<close>\<close>
  | InvalidArrayLength           \<comment> \<open>the RangeError of a push onto an array of \<open>2 ^ 32 - 1\<close> elements\<close>

text \<open>
  The class \<^verbatim>\<open>VPWParser<TInput, TOutput>\<close>: its mutable fields and its constructor
  parameters. The expected outputs are a \<^verbatim>\<open>Map<number, TOutput[]>\<close>, modelled as an
  association list in insertion order with integer keys; \<^verbatim>\<open>get\<close> is \<open>map_of\<close> and
  \<^verbatim>\<open>size\<close> is the length (the keys stay distinct, lemma \<open>readOutputs_distinct\<close>).
  The callbacks are total functions; \<open>parseInput\<close> is also applied to \<^verbatim>\<open>undefined\<close>
  (\<open>None\<close>) when the parser reads past the last line.

  The runners hand the stored arrays and records themselves to the callbacks of the
  caller: the transform receives the input group (or its first record) that
  \<^verbatim>\<open>this.inputs\<close> holds, and \<open>compareOutputs\<close> receives a record of the stored expected
  outputs. A callback may change what it is handed, so the model gives every such
  callback a second result: its argument as the call leaves it, which the runner
  writes back into the parser. \<open>compareOutputs\<close> returns the verdict and both records as
  it leaves them. The model keeps the contents of arrays and records, not their
  identity: two stored arrays are taken to be different objects, and so are the result
  of a transform and its argument.

  An array holds at most \<open>2 ^ 32 - 1\<close> elements. The arrays that are no longer than
  the array of lines (the results of \<^verbatim>\<open>split\<close>, \<^verbatim>\<open>filter\<close> and \<^verbatim>\<open>map\<close>, the entries of the
  map) or than the array of groups (the Error Inputs) are lists without a bound; the
  two arrays that a loop over a parsed count fills are pushed to with \<open>push\<close>, which
  raises at the bound.
\<close>

record ('i, 'o) VPWParser =
  inputs :: "'i list list"
  outputs :: "(int \<times> 'o list) list"
  inputs_with_errors :: "'i list list"
  testCount :: jsnum
  inputFile :: string
  outputFile :: string
  parseInput :: "string option \<Rightarrow> 'i"
  parseOutput :: "string \<Rightarrow> int \<times> 'o"
  compareOutputs :: "'o \<Rightarrow> 'o \<Rightarrow> bool \<times> 'o \<times> 'o"
  readInputCasesNumber :: bool

definition newParser :: "string \<Rightarrow> string \<Rightarrow> (string option \<Rightarrow> 'i) \<Rightarrow> (string \<Rightarrow> int \<times> 'o)
    \<Rightarrow> ('o \<Rightarrow> 'o \<Rightarrow> bool \<times> 'o \<times> 'o) \<Rightarrow> bool \<Rightarrow> ('i, 'o) VPWParser" where
  \<comment> \<open>the constructor, with the field initialisers of the class\<close>
  "newParser inF outF pin pout cmp cnt =
     \<lparr>inputs = [], outputs = [], inputs_with_errors = [], testCount = Exact 0,
      inputFile = inF, outputFile = outF, parseInput = pin, parseOutput = pout,
      compareOutputs = cmp, readInputCasesNumber = cnt\<rparr>"

type_synonym files = "string \<Rightarrow> string option"

definition readFile :: "files \<Rightarrow> string \<Rightarrow> error + string" where
  \<comment> \<open>the content of a named resource, from the local file or else the network\<close>
  "readFile fs filename = (case fs filename of None \<Rightarrow> Inl (FailedToLoad filename)
                           | Some content \<Rightarrow> Inr content)"

definition push :: "'a list \<Rightarrow> 'a \<Rightarrow> error + 'a list" where
  \<comment> \<open>\<^verbatim>\<open>xs.push(x)\<close>: an array holds at most \<open>2 ^ 32 - 1\<close> elements\<close>
  "push xs x = (if length xs < 2 ^ 32 - 1 then Inr (xs @ [x]) else Inl InvalidArrayLength)"

definition loopCount :: "jsnum \<Rightarrow> nat" where
  \<comment> \<open>the number of rounds of \<^verbatim>\<open>for (let i = 0; i < x; i++)\<close>. For \<open>Rounded n\<close> with
      \<open>n > 0\<close> the true number is at least \<open>2 ^ 53\<close>; the loops below push one
      element per round and fail at the push number \<open>2 ^ 32\<close>, the same for every count
      from \<open>2 ^ 32\<close> on.\<close>
  "loopCount x = (case x of NaN \<Rightarrow> 0 | Exact n \<Rightarrow> nat n
                  | Rounded n \<Rightarrow> if 0 < n then 2 ^ 53 else 0)"

definition isGroupMarker :: "engine \<Rightarrow> string option \<Rightarrow> bool" where
  \<comment> \<open>\<^verbatim>\<open>!isNaN(potentialGroupCount) && String(potentialGroupCount) === lines[currentLine].trim()\<close>\<close>
  "isGroupMarker eng v =
     (\<not> isNaN (parseInt10 v) \<and>
      (case v of None \<Rightarrow> False | Some line \<Rightarrow> jsString eng (parseInt10 v) = trim line))"

fun readGroup :: "(string option \<Rightarrow> 'i) \<Rightarrow> string list \<Rightarrow> nat \<Rightarrow> nat \<Rightarrow> 'i list
    \<Rightarrow> error + ('i list \<times> nat)" where
  \<comment> \<open>the inner loop: \<open>k\<close> rounds left, each pushes the record of the current line\<close>
  "readGroup pin lines 0 currentLine grp = Inr (grp, currentLine)"
| "readGroup pin lines (Suc k) currentLine grp =
     (case push grp (pin (lineAt lines currentLine)) of
        Inl e \<Rightarrow> Inl e
      | Inr grp' \<Rightarrow> readGroup pin lines k (currentLine + 1) grp')"

fun readTestCases :: "engine \<Rightarrow> (string option \<Rightarrow> 'i) \<Rightarrow> string list \<Rightarrow> nat \<Rightarrow> nat
    \<Rightarrow> 'i list list \<Rightarrow> error + 'i list list" where
  \<comment> \<open>the outer loop over the test cases: \<open>k\<close> rounds left\<close>
  "readTestCases eng pin lines 0 currentLine ins = Inr ins"
| "readTestCases eng pin lines (Suc k) currentLine ins =
     (let potentialGroupCount = parseInt10 (lineAt lines currentLine);
          parsed = pin (lineAt lines currentLine)
      in if isGroupMarker eng (lineAt lines currentLine) then
           (case readGroup pin lines (loopCount potentialGroupCount) (currentLine + 1) [] of
              Inl e \<Rightarrow> Inl e
            | Inr (grp, currentLine') \<Rightarrow>
                (case push ins grp of
                   Inl e \<Rightarrow> Inl e
                 | Inr ins' \<Rightarrow> readTestCases eng pin lines k currentLine' ins'))
         else
           (case push ins [parsed] of
              Inl e \<Rightarrow> Inl e
            | Inr ins' \<Rightarrow> readTestCases eng pin lines k (currentLine + 1) ins'))"

definition isSimpleNumbersFile :: "engine \<Rightarrow> string list \<Rightarrow> bool" where
  "isSimpleNumbersFile eng lines = list_all (simpleNumberLine eng) lines"

definition looksGrouped :: "engine \<Rightarrow> string \<Rightarrow> bool" where
  \<comment> \<open>\<^verbatim>\<open>!isNaN(parseInt(line)) && String(parseInt(line)) === line.trim() && parseInt(line) > 1\<close>\<close>
  "looksGrouped eng line =
     (\<not> isNaN (parseInt line) \<and> jsString eng (parseInt line) = trim line
      \<and> greaterThanOne (parseInt line))"

definition parseInputLines :: "engine \<Rightarrow> string list \<Rightarrow> ('i, 'o) VPWParser
    \<Rightarrow> error + ('i, 'o) VPWParser" where
  \<comment> \<open>the body of \<^verbatim>\<open>readInputFile\<close> after the non-blank lines are there\<close>
  "parseInputLines eng lines p =
     (if isSimpleNumbersFile eng lines then
        (let inputLines = (if readInputCasesNumber p then drop 1 lines else lines);
             ins = map (\<lambda>line. [parseInput p (Some line)]) inputLines
         in Inr (p\<lparr>inputs := ins, testCount := Exact (int (length ins))\<rparr>))
      else if readInputCasesNumber p then
        (let count = parseInt10 (lineAt lines 0) in
         case readTestCases eng (parseInput p) lines (loopCount count) 1 (inputs p) of
           Inl e \<Rightarrow> Inl e
         | Inr ins \<Rightarrow> Inr (p\<lparr>inputs := ins, testCount := count\<rparr>))
      else if list_ex (looksGrouped eng) lines then Inl GroupedInputsNotSupported
      else
        (let ins = map (\<lambda>line. [parseInput p (Some line)]) lines
         in Inr (p\<lparr>inputs := ins, testCount := Exact (int (length ins))\<rparr>)))"

definition readInputFile :: "engine \<Rightarrow> files \<Rightarrow> ('i, 'o) VPWParser \<Rightarrow> error + ('i, 'o) VPWParser" where
  "readInputFile eng fs p =
     (case readFile fs (inputFile p) of
        Inl e \<Rightarrow> Inl e
      | Inr content \<Rightarrow> parseInputLines eng (nonBlankLines content) p)"

definition addOutput :: "(int \<times> 'o list) list \<Rightarrow> int \<times> 'o \<Rightarrow> (int \<times> 'o list) list" where
  \<comment> \<open>one round of the \<^verbatim>\<open>forEach\<close> of \<^verbatim>\<open>readOutputFile\<close>: create the entry of a new index,
      then append the value to the entry of the index\<close>
  "addOutput m kv =
     (let (index, v) = kv;
          m' = (if map_of m index = None then m @ [(index, [])] else m)
      in map (\<lambda>(k, vs). if k = index then (k, vs @ [v]) else (k, vs)) m')"

definition readOutputs :: "(string \<Rightarrow> int \<times> 'o) \<Rightarrow> string \<Rightarrow> (int \<times> 'o list) list" where
  "readOutputs pout content = foldl addOutput [] (map pout (nonBlankLines content))"

definition readOutputFile :: "files \<Rightarrow> ('i, 'o) VPWParser \<Rightarrow> error + ('i, 'o) VPWParser" where
  "readOutputFile fs p =
     (case readFile fs (outputFile p) of
        Inl e \<Rightarrow> Inl e
      | Inr content \<Rightarrow> Inr (p\<lparr>outputs := readOutputs (parseOutput p) content\<rparr>))"

definition validateFileLengths :: "('i, 'o) VPWParser \<Rightarrow> error + ('i, 'o) VPWParser" where
  "validateFileLengths p =
     (let inputLength = length (inputs p); outputLength = length (outputs p) in
      if inputLength = 0 then Inl NoTestCasesFound
      else if inputLength \<noteq> outputLength then Inl (MismatchedLengths inputLength outputLength)
      else Inr (p\<lparr>testCount := Exact (int inputLength)\<rparr>))"

definition initialize :: "engine \<Rightarrow> files \<Rightarrow> ('i, 'o) VPWParser \<Rightarrow> error + ('i, 'o) VPWParser" where
  "initialize eng fs p =
     (case readInputFile eng fs p of
        Inl e \<Rightarrow> Inl e
      | Inr p1 \<Rightarrow>
          (case readOutputFile fs p1 of
             Inl e \<Rightarrow> Inl e
           | Inr p2 \<Rightarrow> validateFileLengths p2))"

subsection \<open>The runners\<close>

text \<open>
  A runner resets the Error Inputs list, then visits the groups in order. Its result is
  the error it raised, if any, the parser as the call leaves it, and the failures it
  reported on the console, in order. A reported failure of the group runner is the
  1-based index, the input group, the expected and the produced outputs, each as it is
  when the report is printed.
\<close>

fun everyPair :: "('o \<Rightarrow> 'o \<Rightarrow> bool \<times> 'o \<times> 'o) \<Rightarrow> ('o \<times> 'o) list \<Rightarrow> bool \<times> ('o \<times> 'o) list" where
  \<comment> \<open>\<^verbatim>\<open>actual.every((value, index) => this.compareOutputs(value, expected[index]))\<close> over
      the pairs of a produced and an expected record; it stops at the first mismatch\<close>
  "everyPair cmp [] = (True, [])"
| "everyPair cmp ((v, e) # rest) =
     (case cmp v e of
        (same, v', e') \<Rightarrow>
          if same then (case everyPair cmp rest of (r, rest') \<Rightarrow> (r, (v', e') # rest'))
          else (False, (v', e') # rest))"

definition compareArrays :: "('i, 'o) VPWParser \<Rightarrow> 'o list \<Rightarrow> 'o list
    \<Rightarrow> bool \<times> 'o list \<times> 'o list" where
  \<comment> \<open>the verdict, and the two arrays as the comparisons leave them\<close>
  "compareArrays p actual expected =
     (if length actual \<noteq> length expected then (False, actual, expected)
      else (case everyPair (compareOutputs p) (zip actual expected) of
              (same, pairs) \<Rightarrow> (same, map fst pairs, map snd pairs)))"

fun setEntry :: "int \<Rightarrow> 'o list \<Rightarrow> (int \<times> 'o list) list \<Rightarrow> (int \<times> 'o list) list" where
  \<comment> \<open>the map whose array under an index has got new contents\<close>
  "setEntry k vs [] = []"
| "setEntry k vs ((k', ws) # m) =
     (if k' = k then (k', vs) # m else (k', ws) # setEntry k vs m)"

fun runnerLoop :: "('i list \<Rightarrow> 'o list \<times> 'i list) \<Rightarrow> nat \<Rightarrow> 'i list list \<Rightarrow> ('i, 'o) VPWParser
    \<Rightarrow> (nat \<times> 'i list \<times> 'o list \<times> 'o list) list
    \<Rightarrow> error option \<times> ('i, 'o) VPWParser \<times> (nat \<times> 'i list \<times> 'o list \<times> 'o list) list" where
  \<comment> \<open>\<open>fn inputGroup\<close> is the result of the transform and the input group as the
      transform leaves it\<close>
  "runnerLoop fn index [] p reported = (None, p, reported)"
| "runnerLoop fn index (inputGroup # rest) p reported =
     (case map_of (outputs p) (int index + 1) of
        None \<Rightarrow> (Some (NoExpectedOutput (index + 1)), p, reported)
      | Some expected \<Rightarrow>
          (case fn inputGroup of
             (result, inputGroup') \<Rightarrow>
               (case compareArrays p result expected of
                  (same, result', expected') \<Rightarrow>
                    runnerLoop fn (index + 1) rest
                      (p\<lparr>inputs := (inputs p)[index := inputGroup'],
                         outputs := setEntry (int index + 1) expected' (outputs p)\<rparr>)
                      (if \<not> same
                       then reported @ [(index + 1, inputGroup', expected', result')]
                       else reported))))"

definition runner :: "('i, 'o) VPWParser \<Rightarrow> ('i list \<Rightarrow> 'o list \<times> 'i list)
    \<Rightarrow> error option \<times> ('i, 'o) VPWParser \<times> (nat \<times> 'i list \<times> 'o list \<times> 'o list) list" where
  "runner p fn =
     (let p0 = p\<lparr>inputs_with_errors := []\<rparr> in runnerLoop fn 0 (inputs p0) p0 [])"

text \<open>
  The single-value runner takes the first record of the group (\<^verbatim>\<open>undefined\<close>, \<open>None\<close>,
  for an empty group) and the first expected record. Its test \<^verbatim>\<open>!expected\<close> holds for
  a missing value and for every falsy one; \<open>falsy\<close> tells which output values are falsy.
  The transform returns its result and the record as it leaves it. The Error Inputs
  list gets the failing groups; it is never longer than the array of groups.
\<close>

definition setFirst :: "'a option \<Rightarrow> 'a list \<Rightarrow> 'a list" where
  \<comment> \<open>the array whose first element has got new contents\<close>
  "setFirst v xs = (case (v, xs) of (Some x', x # rest) \<Rightarrow> x' # rest | _ \<Rightarrow> xs)"

fun simpleRunnerLoop :: "('o \<Rightarrow> bool) \<Rightarrow> ('i option \<Rightarrow> 'o \<times> 'i option) \<Rightarrow> nat \<Rightarrow> 'i list list
    \<Rightarrow> ('i, 'o) VPWParser \<Rightarrow> (nat \<times> 'i option \<times> 'o \<times> 'o) list
    \<Rightarrow> error option \<times> ('i, 'o) VPWParser \<times> (nat \<times> 'i option \<times> 'o \<times> 'o) list" where
  "simpleRunnerLoop falsy fn index [] p reported = (None, p, reported)"
| "simpleRunnerLoop falsy fn index (inputGroup # rest) p reported =
     (let input = (case inputGroup of [] \<Rightarrow> None | x # _ \<Rightarrow> Some x);
          expected = (case map_of (outputs p) (int index + 1) of
                        None \<Rightarrow> None | Some [] \<Rightarrow> None | Some (e # _) \<Rightarrow> Some e)
      in case expected of
           None \<Rightarrow> (Some (NoExpectedOutput (index + 1)), p, reported)
         | Some e \<Rightarrow>
             if falsy e then (Some (NoExpectedOutput (index + 1)), p, reported)
             else
               (case fn input of
                  (result, input') \<Rightarrow>
                    (case compareOutputs p result e of
                       (same, result', e') \<Rightarrow>
                         (let inputGroup' = setFirst input' inputGroup;
                              p' = p\<lparr>inputs := (inputs p)[index := inputGroup'],
                                     outputs := (case map_of (outputs p) (int index + 1) of
                                                   None \<Rightarrow> outputs p
                                                 | Some es \<Rightarrow>
                                                     setEntry (int index + 1) (setFirst (Some e') es)
                                                       (outputs p))\<rparr>
                          in if \<not> same
                             then simpleRunnerLoop falsy fn (index + 1) rest
                                    (p'\<lparr>inputs_with_errors := inputs_with_errors p' @ [inputGroup']\<rparr>)
                                    (reported @ [(index + 1, input', e', result')])
                             else simpleRunnerLoop falsy fn (index + 1) rest p' reported))))"

definition simpleRunner :: "('o \<Rightarrow> bool) \<Rightarrow> ('i, 'o) VPWParser \<Rightarrow> ('i option \<Rightarrow> 'o \<times> 'i option)
    \<Rightarrow> error option \<times> ('i, 'o) VPWParser \<times> (nat \<times> 'i option \<times> 'o \<times> 'o) list" where
  "simpleRunner falsy p fn =
     (let p0 = p\<lparr>inputs_with_errors := []\<rparr> in simpleRunnerLoop falsy fn 0 (inputs p0) p0 [])"

definition errorInputs :: "('i, 'o) VPWParser \<Rightarrow> 'i list list" where
  "errorInputs p = inputs_with_errors p"

definition testsExecuted :: "('i, 'o) VPWParser \<Rightarrow> jsnum" where
  "testsExecuted p = testCount p"

section \<open>The slalom solution\<close>

text \<open>
  \<^verbatim>\<open>slalom(matrix)\<close> searches the best descent through a matrix of scores. The scores are
  integers (small enough for doubles to add them exactly); besides them the search
  meets \<^verbatim>\<open>-Infinity\<close> and, where a row is shorter than the first one, \<^verbatim>\<open>NaN\<close> (the sum
  with \<^verbatim>\<open>undefined\<close>).
\<close>

datatype score = NotANumber | NegInfinity | Finite int

definition addScore :: "score \<Rightarrow> score \<Rightarrow> score" where
  \<comment> \<open>\<^verbatim>\<open>a + b\<close>\<close>
  "addScore a b = (case (a, b) of
      (Finite x, Finite y) \<Rightarrow> Finite (x + y)
    | (NotANumber, _) \<Rightarrow> NotANumber
    | (_, NotANumber) \<Rightarrow> NotANumber
    | _ \<Rightarrow> NegInfinity)"

definition mathMax :: "score \<Rightarrow> score \<Rightarrow> score" where
  \<comment> \<open>\<^verbatim>\<open>Math.max(a, b)\<close>\<close>
  "mathMax a b = (case (a, b) of
      (NotANumber, _) \<Rightarrow> NotANumber
    | (_, NotANumber) \<Rightarrow> NotANumber
    | (NegInfinity, y) \<Rightarrow> y
    | (x, NegInfinity) \<Rightarrow> x
    | (Finite x, Finite y) \<Rightarrow> Finite (max x y))"

definition lessEqual :: "score \<Rightarrow> score \<Rightarrow> bool" where
  \<comment> \<open>\<^verbatim>\<open>a <= b\<close>\<close>
  "lessEqual a b = (case (a, b) of
      (NotANumber, _) \<Rightarrow> False
    | (_, NotANumber) \<Rightarrow> False
    | (NegInfinity, _) \<Rightarrow> True
    | (Finite x, NegInfinity) \<Rightarrow> False
    | (Finite x, Finite y) \<Rightarrow> x \<le> y)"

definition maxScorePerRow :: "int list list \<Rightarrow> score list" where
  \<comment> \<open>\<^verbatim>\<open>maxScorePerRow[i] = Math.max(...matrix[i])\<close>, which is \<^verbatim>\<open>-Infinity\<close> for an empty row\<close>
  "maxScorePerRow matrix = map (\<lambda>row. foldl mathMax NegInfinity (map Finite row)) matrix"

definition columns :: "int list list \<Rightarrow> nat" where
  \<comment> \<open>\<^verbatim>\<open>cols = matrix[0].length\<close>; \<^verbatim>\<open>slalom\<close> has returned before for the empty matrix\<close>
  "columns matrix = (case matrix of [] \<Rightarrow> 0 | row # _ \<Rightarrow> length row)"

definition cell :: "int list list \<Rightarrow> nat \<Rightarrow> nat \<Rightarrow> score" where
  \<comment> \<open>\<^verbatim>\<open>matrix[row][col]\<close> as a summand, for a row of the matrix: \<^verbatim>\<open>undefined\<close> adds as NaN\<close>
  "cell matrix row col =
     (if col < length (matrix ! row) then Finite (matrix ! row ! col) else NotANumber)"

type_synonym memo = "nat \<times> int \<times> score \<Rightarrow> score option"

text \<open>
  \<^verbatim>\<open>dfs\<close> reads and writes the memo table and \<^verbatim>\<open>bestScoreSoFar\<close>; the model passes the
  pair of them along. The memo key is the triple that the source prints into a text.
  \<open>None\<close> is the TypeError of \<^verbatim>\<open>matrix[row][col]\<close> for a row beyond the matrix, which
  \<^verbatim>\<open>slalom\<close> never asks for.
\<close>

function dfs :: "int list list \<Rightarrow> nat \<Rightarrow> int \<Rightarrow> score \<Rightarrow> memo \<times> score
    \<Rightarrow> (score \<times> memo \<times> score) option" where
  "dfs matrix row col currentScore st =
     (let rows = length matrix; cols = int (columns matrix); (memo, bestScoreSoFar) = st in
      if col < 0 \<or> col \<ge> cols then Some (NegInfinity, st)
      else if row = rows then Some (currentScore, st)
      else
        (let maxPossibleScore =
               foldl (\<lambda>acc r. addScore acc (maxScorePerRow matrix ! r)) currentScore [row..<rows]
         in if lessEqual maxPossibleScore bestScoreSoFar then Some (NegInfinity, st)
            else
              (case memo (row, col, currentScore) of
                 Some v \<Rightarrow> Some (v, st)
               | None \<Rightarrow>
                   if rows < row then None
                   else
                     (let next = addScore currentScore (cell matrix row (nat col)) in
                      case dfs matrix (row + 1) (col - 1) next st of
                        None \<Rightarrow> None
                      | Some (a, st1) \<Rightarrow>
                          (case dfs matrix (row + 1) col next st1 of
                             None \<Rightarrow> None
                           | Some (b, st2) \<Rightarrow>
                               (case dfs matrix (row + 1) (col + 1) next st2 of
                                  None \<Rightarrow> None
                                | Some (c, (memo3, best3)) \<Rightarrow>
                                    (let score = mathMax (mathMax a b) c
                                     in Some (score, memo3((row, col, currentScore) \<mapsto> score),
                                              mathMax best3 score))))))))"
  by pat_completeness auto
termination
  by (relation "measure (\<lambda>(matrix, row, col, currentScore, st). length matrix - row)") auto

declare dfs.simps [simp del]

fun startLoop :: "int list list \<Rightarrow> nat \<Rightarrow> nat \<Rightarrow> score \<Rightarrow> memo \<times> score \<Rightarrow> score option" where
  \<comment> \<open>the loop over the start columns: \<open>k\<close> columns left\<close>
  "startLoop matrix 0 col maxScore st = Some maxScore"
| "startLoop matrix (Suc k) col maxScore st =
     (case dfs matrix 0 (int col) (Finite 0) st of
        None \<Rightarrow> None
      | Some (v, st') \<Rightarrow> startLoop matrix k (col + 1) (mathMax maxScore v) st')"

definition slalom :: "int list list \<Rightarrow> score option" where
  "slalom matrix =
     (if length matrix = 0 then Some (Finite 0)
      else startLoop matrix (columns matrix) 0 NegInfinity (Map.empty, NegInfinity))"

section \<open>The ranking solution\<close>

text \<open>
  \<^verbatim>\<open>ranking(participants)\<close> sorts a copy by descending score (the sort of the language is
  stable) and maps over it with two variables of the enclosing function,
  \<^verbatim>\<open>currentRank\<close> and \<^verbatim>\<open>previousScore\<close>. \<^verbatim>\<open>previousScore\<close> starts as the first score, or as
  \<^verbatim>\<open>undefined\<close> (\<open>None\<close>), with which no comparison holds. Scores are integers.
\<close>

fun rankLoop :: "nat \<Rightarrow> nat \<Rightarrow> int option \<Rightarrow> (string \<times> int) list
    \<Rightarrow> (nat \<times> string \<times> int) list" where
  "rankLoop index currentRank previousScore [] = []"
| "rankLoop index currentRank previousScore ((name, score) # rest) =
     (if (case previousScore of None \<Rightarrow> False | Some prev \<Rightarrow> score < prev)
      then (index + 1, name, score) # rankLoop (index + 1) (index + 1) (Some score) rest
      else (currentRank, name, score) # rankLoop (index + 1) currentRank previousScore rest)"

definition ranking :: "(string \<times> int) list \<Rightarrow> (nat \<times> string \<times> int) list" where
  "ranking participants =
     (let sorted = sort_key (\<lambda>p. - snd p) participants;
          previousScore = (case sorted of [] \<Rightarrow> None | p # _ \<Rightarrow> Some (snd p))
      in rankLoop 0 1 previousScore sorted)"

section \<open>Callers used in the examples\<close>

definition plainEngine :: engine where
  \<comment> \<open>the examples stay within texts whose conversion is exact and never consult it\<close>
  "plainEngine = \<lparr>roundedToString = showInt, floatRoundTrips = (\<lambda>t. False)\<rparr>"

definition pureCompare :: "('o \<Rightarrow> 'o \<Rightarrow> bool) \<Rightarrow> 'o \<Rightarrow> 'o \<Rightarrow> bool \<times> 'o \<times> 'o" where
  \<comment> \<open>an equality predicate that changes neither record, as the default of the
      constructor\<close>
  "pureCompare eq a b = (eq a b, a, b)"

definition lineText :: "string option \<Rightarrow> string" where
  \<comment> \<open>an input-line parser: the line as a text, \<^verbatim>\<open>(line) => String(line)\<close>\<close>
  "lineText v = (case v of None \<Rightarrow> ''undefined'' | Some line \<Rightarrow> line)"

definition reverseAndTakeFirst :: "string list \<Rightarrow> string list \<times> string list" where
  \<comment> \<open>a transform that works in place: \<^verbatim>\<open>(g) => { g.reverse(); return g.slice(0, 1); }\<close>\<close>
  "reverseAndTakeFirst g = (take 1 (rev g), rev g)"

definition indexedRecord :: "string \<Rightarrow> int \<times> string" where
  \<comment> \<open>an output-line parser for lines made of a decimal index, a space and a record:
      the index as a number, and the rest of the line\<close>
  "indexedRecord line =
     (int (decValue (takeWhile isDigit line)), drop 1 (dropWhile isDigit line))"

definition indexedNumber :: "string \<Rightarrow> int \<times> int" where
  \<comment> \<open>an output-line parser for lines made of two decimal numbers with a space between\<close>
  "indexedNumber line =
     (int (decValue (takeWhile isDigit line)),
      int (decValue (takeWhile isDigit (drop 1 (dropWhile isDigit line)))))"

section \<open>The two solutions on the scenarios of the specification\<close>

text \<open>
  Claim C8. The slalom function returns 0 for the empty matrix, 7 for the single-cell
  matrix \<open>[[7]]\<close>, and 10 for the single-column matrix \<open>[[2],[5],[3]]\<close>, where the forced
  descent through the one column sums all cells.
\<close>

theorem slalom_scenarios:
  "slalom [] = Some (Finite 0) \<and> slalom [[7]] = Some (Finite 7)
   \<and> slalom [[2], [5], [3]] = Some (Finite 10)"
  by code_simp

text \<open>
  The ranks in general: the result lists the participants in stable descending order of
  score, each with one plus the number of participants of strictly higher score.
\<close>

lemma rankLoop_ranks:
  assumes "sorted (map (\<lambda>p. - snd p) (pre @ xs))"
    and "\<forall>q \<in> set pre. prev \<le> snd q"
    and "\<forall>q \<in> set xs. snd q \<le> prev"
    and "cur = 1 + length (filter (\<lambda>q. prev < snd q) pre)"
  shows "rankLoop (length pre) cur (Some prev) xs
         = map (\<lambda>(name, score). (1 + length (filter (\<lambda>q. score < snd q) (pre @ xs)), name, score)) xs"
  using assms
proof (induction xs arbitrary: pre cur prev)
  case Nil
  then show ?case by simp
next
  case (Cons x rest)
  obtain n s where x: "x = (n, s)" by (cases x)
  have srt: "sorted (map (\<lambda>p. - snd p) ((pre @ [x]) @ rest))" using Cons.prems(1) by simp
  have below: "\<forall>q \<in> set rest. snd q \<le> s"
    using Cons.prems(1) x by (auto simp: sorted_append)
  have above: "\<forall>q \<in> set pre. s \<le> snd q"
    using Cons.prems(1) x by (auto simp: sorted_append)
  have le: "s \<le> prev" using Cons.prems(3) x by simp
  have cnt: "filter (\<lambda>q. s < snd q) (pre @ x # rest) = filter (\<lambda>q. s < snd q) pre"
    using below x by (auto simp: filter_empty_conv)
  show ?case
  proof (cases "s < prev")
    case True
    have all: "filter (\<lambda>q. s < snd q) pre = pre"
      using True Cons.prems(2) by (auto simp: filter_id_conv)
    have ih: "rankLoop (length (pre @ [x])) (length pre + 1) (Some s) rest
         = map (\<lambda>(name, score). (1 + length (filter (\<lambda>q. score < snd q) ((pre @ [x]) @ rest)), name, score)) rest"
      using Cons.IH [of "pre @ [x]" s "length pre + 1", OF srt] above below x all by simp
    show ?thesis using True x ih cnt all by simp
  next
    case False
    then have eq: "s = prev" using le by simp
    have ih: "rankLoop (length (pre @ [x])) cur (Some prev) rest
         = map (\<lambda>(name, score). (1 + length (filter (\<lambda>q. score < snd q) ((pre @ [x]) @ rest)), name, score)) rest"
      using Cons.IH [of "pre @ [x]" prev cur, OF srt] Cons.prems(2,4) below x eq by simp
    show ?thesis using False x ih cnt eq Cons.prems(4) by simp
  qed
qed

lemma ranking_ranks:
  "ranking participants
     = map (\<lambda>(name, score). (1 + length (filter (\<lambda>q. score < snd q) participants), name, score))
         (sort_key (\<lambda>p. - snd p) participants)"
proof -
  let ?s = "sort_key (\<lambda>p. - snd p) participants"
  have len: "length (filter P ?s) = length (filter P participants)" for P
    by (simp add: filter_sort)
  show ?thesis
  proof (cases ?s)
    case Nil
    then show ?thesis by (simp add: ranking_def)
  next
    case (Cons x rest)
    have srt: "sorted (map (\<lambda>p. - snd p) ([] @ ?s))" by simp
    then have "\<forall>q \<in> set ?s. snd q \<le> snd x" using Cons by auto
    then have r: "rankLoop 0 1 (Some (snd x)) ?s
         = map (\<lambda>(name, score). (1 + length (filter (\<lambda>q. score < snd q) ?s), name, score)) ?s"
      using rankLoop_ranks [of "[]" ?s "snd x" 1, OF srt] by simp
    have m: "map (\<lambda>(name, score). (1 + length (filter (\<lambda>q. score < snd q) ?s), name, score)) ?s
         = map (\<lambda>(name, score). (1 + length (filter (\<lambda>q. score < snd q) participants), name, score)) ?s"
      by (simp only: len)
    have d: "ranking participants = rankLoop 0 1 (Some (snd x)) ?s"
      using Cons by (simp add: ranking_def Let_def)
    show ?thesis by (simp only: d r m)
  qed
qed

text \<open>
  Claim C9. The ranking function maps Alice 100, Bob 100, Charlie 90 to the ranks 1, 1
  and 3: the tied scores share a rank, and the next distinct rank is one plus the number
  of entries before it in descending order.
\<close>

theorem ranking_tied_scores:
  "ranking [(''Alice'', 100), (''Bob'', 100), (''Charlie'', 90)]
     = [(1, ''Alice'', 100), (1, ''Bob'', 100), (3, ''Charlie'', 90)]"
  by (simp add: ranking_def)

section \<open>The group runner: frame and repeatability\<close>

lemma everyPair_pure:
  "\<forall>v e. snd (cmp v e) = (v, e) \<Longrightarrow> snd (everyPair cmp pairs) = pairs"
proof (induction pairs)
  case Nil
  then show ?case by simp
next
  case (Cons a pairs)
  obtain v e where a: "a = (v, e)" by (cases a)
  obtain same where c: "cmp v e = (same, v, e)"
    using Cons.prems by (metis prod.collapse)
  show ?case using Cons a c by (auto split: prod.splits)
qed

lemma compareArrays_pure:
  assumes "\<forall>v e. snd (compareOutputs p v e) = (v, e)"
  shows "snd (compareArrays p actual expected) = (actual, expected)"
proof (cases "length actual = length expected")
  case True
  have "snd (everyPair (compareOutputs p) (zip actual expected)) = zip actual expected"
    using assms by (rule everyPair_pure)
  then show ?thesis using True
    by (auto simp: compareArrays_def split: prod.splits)
next
  case False
  then show ?thesis by (simp add: compareArrays_def)
qed

lemma setEntry_same: "map_of m k = Some vs \<Longrightarrow> setEntry k vs m = m"
  by (induction m) (auto split: if_splits)

lemma setEntry_keys: "map fst (setEntry k vs m) = map fst m"
  by (induction m) auto

lemma setEntry_keyset: "fst ` set (setEntry k vs m) = fst ` set m"
  by (metis setEntry_keys set_map)


lemma drop_head:
  "g # groups = drop index xs \<Longrightarrow> xs[index := g] = xs \<and> groups = drop (index + 1) xs"
proof -
  assume a: "g # groups = drop index xs"
  then have i: "index < length xs" by (metis drop_all list.distinct(1) not_le)
  then have "drop index xs = xs ! index # drop (Suc index) xs" by (rule Cons_nth_drop_Suc [symmetric])
  then show ?thesis using a by simp
qed

lemma runnerLoop_frame:
  assumes "\<forall>g. snd (fn g) = g" and "\<forall>v e. snd (compareOutputs p v e) = (v, e)"
    and "groups = drop index (inputs p)"
  shows "fst (snd (runnerLoop fn index groups p reported)) = p"
  using assms(3)
proof (induction groups arbitrary: index reported)
  case Nil
  show ?case by simp
next
  case (Cons g groups)
  have d: "(inputs p)[index := g] = inputs p" "groups = drop (index + 1) (inputs p)"
    using drop_head [OF Cons.prems] by simp_all
  show ?case
  proof (cases "map_of (outputs p) (int index + 1)")
    case None
    then show ?thesis by simp
  next
    case (Some expected)
    obtain result where f: "fn g = (result, g)"
      using assms(1) by (metis prod.collapse)
    obtain same where c: "compareArrays p result expected = (same, result, expected)"
      using compareArrays_pure [OF assms(2), of result expected] by (metis prod.collapse)
    have p: "p\<lparr>inputs := (inputs p)[index := g],
               outputs := setEntry (int index + 1) expected (outputs p)\<rparr> = p"
      using d(1) setEntry_same [OF Some] by simp
    show ?thesis
      using Some f c p Cons.IH [OF d(2)] by simp
  qed
qed


lemma initialize_callbacks:
  "initialize eng fs p = Inr p' \<Longrightarrow> compareOutputs p' = compareOutputs p"
  by (auto simp: initialize_def readInputFile_def parseInputLines_def readOutputFile_def
        validateFileLengths_def Let_def split: sum.splits if_splits)

text \<open>
  Claim C10, as the specification states it: for every transform, a completed call of
  the group runner leaves the parsed inputs unchanged. The runner hands each stored
  group itself to the transform. With the input group \<open>a, b\<close>, the expected output
  \<open>b\<close> and the transform that reverses its argument in place and returns its first
  element, the call completes and the stored group is \<open>b, a\<close>.
\<close>

theorem runGroups_frame_counterexample:
  "\<not> isl (initialize plainEngine [''in.txt'' \<mapsto> ''1\<newline>2\<newline>a\<newline>b'', ''uit.txt'' \<mapsto> ''1 b'']
            (newParser ''in.txt'' ''uit.txt'' lineText indexedRecord (pureCompare (=)) True))
   \<and> inputs (projr (initialize plainEngine
            [''in.txt'' \<mapsto> ''1\<newline>2\<newline>a\<newline>b'', ''uit.txt'' \<mapsto> ''1 b'']
            (newParser ''in.txt'' ''uit.txt'' lineText indexedRecord (pureCompare (=)) True)))
       = [[''a'', ''b'']]
   \<and> fst (runner (projr (initialize plainEngine
            [''in.txt'' \<mapsto> ''1\<newline>2\<newline>a\<newline>b'', ''uit.txt'' \<mapsto> ''1 b'']
            (newParser ''in.txt'' ''uit.txt'' lineText indexedRecord (pureCompare (=)) True)))
          reverseAndTakeFirst) = None
   \<and> inputs (fst (snd (runner (projr (initialize plainEngine
            [''in.txt'' \<mapsto> ''1\<newline>2\<newline>a\<newline>b'', ''uit.txt'' \<mapsto> ''1 b'']
            (newParser ''in.txt'' ''uit.txt'' lineText indexedRecord (pureCompare (=)) True)))
          reverseAndTakeFirst)))
       = [[''b'', ''a'']]"
  by code_simp

text \<open>
  Claim C10, amended. For every parser whose equality predicate leaves its arguments
  unchanged and every transform that leaves its argument unchanged, a call of the group
  runner, whether it completes or raises, leaves the parsed inputs, the Expected Output
  Map and the count of executed tests as they were; the one field it changes is the
  Error Inputs list, which it resets to empty.
\<close>

theorem runGroups_frame:
  assumes "\<forall>g. snd (fn g) = g" and "\<forall>v e. snd (compareOutputs p v e) = (v, e)"
  shows "fst (snd (runner p fn)) = p\<lparr>inputs_with_errors := []\<rparr>
   \<and> inputs (fst (snd (runner p fn))) = inputs p
   \<and> outputs (fst (snd (runner p fn))) = outputs p
   \<and> testsExecuted (fst (snd (runner p fn))) = testsExecuted p
   \<and> errorInputs (fst (snd (runner p fn))) = []"
proof -
  let ?p0 = "p\<lparr>inputs_with_errors := []\<rparr>"
  have "fst (snd (runnerLoop fn 0 (inputs ?p0) ?p0 [])) = ?p0"
    using assms by (intro runnerLoop_frame) simp_all
  then have "fst (snd (runner p fn)) = ?p0" by (simp add: runner_def Let_def)
  then show ?thesis by (simp add: testsExecuted_def errorInputs_def)
qed

text \<open>
  The theorem at a parser of two groups and a transform that returns a new array.
\<close>

theorem runGroups_frame_witness:
  "\<exists>p. initialize plainEngine [''in.txt'' \<mapsto> ''2\<newline>x 1\<newline>y 2'', ''uit.txt'' \<mapsto> ''1 a\<newline>2 b'']
          (newParser ''in.txt'' ''uit.txt'' lineText indexedRecord (pureCompare (=)) True) = Inr p
      \<and> inputs p = [[''x 1''], [''y 2'']]
      \<and> inputs (fst (snd (runner p (\<lambda>g. (map (\<lambda>x. ''a'') g, g))))) = [[''x 1''], [''y 2'']]
      \<and> outputs (fst (snd (runner p (\<lambda>g. (map (\<lambda>x. ''a'') g, g))))) = outputs p
      \<and> errorInputs (fst (snd (runner p (\<lambda>g. (map (\<lambda>x. ''a'') g, g))))) = []"
proof -
  let ?fs = "[''in.txt'' \<mapsto> ''2\<newline>x 1\<newline>y 2'', ''uit.txt'' \<mapsto> ''1 a\<newline>2 b'']"
  let ?p0 = "newParser ''in.txt'' ''uit.txt'' lineText indexedRecord (pureCompare (=)) True"
  let ?fn = "\<lambda>g :: string list. (map (\<lambda>x. ''a'') g, g)"
  have "case initialize plainEngine ?fs ?p0 of Inl _ \<Rightarrow> False
        | Inr p \<Rightarrow> inputs p = [[''x 1''], [''y 2'']]"
    by code_simp
  then obtain p where 1: "initialize plainEngine ?fs ?p0 = Inr p"
    and 2: "inputs p = [[''x 1''], [''y 2'']]"
    by (auto split: sum.splits)
  have "compareOutputs p = pureCompare (=)"
    using initialize_callbacks [OF 1] by (simp add: newParser_def)
  then have 3: "\<forall>v e. snd (compareOutputs p v e) = (v, e)" by (simp add: pureCompare_def)
  have 4: "\<forall>g. snd (?fn g) = g" by simp
  show ?thesis
    using runGroups_frame [of ?fn p, OF 4 3] 1 2
    by (intro exI [of _ p]) (simp add: errorInputs_def)
qed




section \<open>Initialisation and the Validator\<close>

lemma addOutput_keys:
  "map fst (addOutput m (k, v)) = (if k \<in> set (map fst m) then map fst m else map fst m @ [k])"
proof -
  have *: "map fst (map (\<lambda>(k', vs). if k' = k then (k', vs @ [v]) else (k', vs)) xs) = map fst xs" for xs :: "(int \<times> 'a list) list"
    by (induction xs) auto
  show ?thesis
    by (auto simp: addOutput_def Let_def * map_of_eq_None_iff image_iff)
qed

lemma foldl_addOutput_distinct:
  "distinct (map fst m) \<Longrightarrow> distinct (map fst (foldl addOutput m kvs))"
proof (induction kvs arbitrary: m)
  case Nil
  then show ?case by simp
next
  case (Cons kv kvs)
  obtain k v where kv: "kv = (k, v)" by (cases kv)
  have "distinct (map fst (addOutput m (k, v)))"
    using Cons.prems by (simp only: addOutput_keys) auto
  then show ?case using Cons.IH kv by simp
qed

lemma readOutputs_distinct: "distinct (map fst (readOutputs pout content))"
  by (simp add: readOutputs_def foldl_addOutput_distinct)

lemma readOutputFile_outputs:
  "readOutputFile fs p1 = Inr p2 \<Longrightarrow>
   distinct (map fst (outputs p2)) \<and> inputs p2 = inputs p1"
  by (auto simp: readOutputFile_def readOutputs_distinct split: sum.splits)

lemma outputs_size:
  "distinct (map fst m) \<Longrightarrow> length m = card (fst ` set m)"
  using distinct_card [of "map fst m"] by simp

text \<open>
  Claim C3. Let the input file load and parse, and let the output file load. Then
  \<^verbatim>\<open>initialize()\<close> succeeds if and only if the number of parsed TestCase Groups equals
  the number of distinct indices of the Expected Output Map and is not zero. In
  particular, with 3 groups and an output file that has the indices 1 and 3 only,
  \<^verbatim>\<open>initialize()\<close> fails with the count mismatch error that reports 3 and 2.
\<close>

theorem initialize_succeeds_iff:
  assumes "readInputFile eng fs p = Inr p1" and "readOutputFile fs p1 = Inr p2"
  shows "((\<exists>p'. initialize eng fs p = Inr p')
            \<longleftrightarrow> length (inputs p1) = card (fst ` set (outputs p2)) \<and> length (inputs p1) \<noteq> 0)
         \<and> (length (inputs p1) = 3 \<and> fst ` set (outputs p2) = {1, 3}
            \<longrightarrow> initialize eng fs p = Inl (MismatchedLengths 3 2))"
proof -
  have d: "length (outputs p2) = card (fst ` set (outputs p2))" and i: "inputs p2 = inputs p1"
    using readOutputFile_outputs [OF assms(2)] outputs_size by auto
  have v: "initialize eng fs p = validateFileLengths p2"
    using assms by (simp add: initialize_def)
  have c: "card {1, 3 :: int} = 2" by simp
  show ?thesis
    unfolding v using d i c by (auto simp: validateFileLengths_def Let_def)
qed

text \<open>
  The theorem at three groups and an output file without index 2.
\<close>

theorem initialize_succeeds_iff_witness:
  "(\<exists>p1 p2. readInputFile plainEngine
                 [''in.txt'' \<mapsto> ''3\<newline>x 1\<newline>y 2\<newline>z 3'', ''uit.txt'' \<mapsto> ''1 a\<newline>3 c'']
                 (newParser ''in.txt'' ''uit.txt'' (\<lambda>line. line) indexedRecord (pureCompare (=)) True) = Inr p1
            \<and> readOutputFile
                 [''in.txt'' \<mapsto> ''3\<newline>x 1\<newline>y 2\<newline>z 3'', ''uit.txt'' \<mapsto> ''1 a\<newline>3 c''] p1 = Inr p2
            \<and> inputs p1 = [[Some ''x 1''], [Some ''y 2''], [Some ''z 3'']]
            \<and> outputs p2 = [(1, [''a'']), (3, [''c''])])
   \<and> initialize plainEngine
        [''in.txt'' \<mapsto> ''3\<newline>x 1\<newline>y 2\<newline>z 3'', ''uit.txt'' \<mapsto> ''1 a\<newline>3 c'']
        (newParser ''in.txt'' ''uit.txt'' (\<lambda>line. line) indexedRecord (pureCompare (=)) True)
      = Inl (MismatchedLengths 3 2)"
proof -
  let ?fs = "[''in.txt'' \<mapsto> ''3\<newline>x 1\<newline>y 2\<newline>z 3'', ''uit.txt'' \<mapsto> ''1 a\<newline>3 c'']"
  let ?p = "newParser ''in.txt'' ''uit.txt'' (\<lambda>line. line) indexedRecord (pureCompare (=)) True"
  have "case readInputFile plainEngine ?fs ?p of Inl _ \<Rightarrow> False
        | Inr p1 \<Rightarrow> inputs p1 = [[Some ''x 1''], [Some ''y 2''], [Some ''z 3'']]
            \<and> (case readOutputFile ?fs p1 of Inl _ \<Rightarrow> False
               | Inr p2 \<Rightarrow> outputs p2 = [(1, [''a'']), (3, [''c''])])"
    by code_simp
  then obtain p1 p2 where 1: "readInputFile plainEngine ?fs ?p = Inr p1"
    and 2: "readOutputFile ?fs p1 = Inr p2"
    and 3: "inputs p1 = [[Some ''x 1''], [Some ''y 2''], [Some ''z 3'']]"
    and 4: "outputs p2 = [(1, [''a'']), (3, [''c''])]"
    by (auto split: sum.splits)
  have "initialize plainEngine ?fs ?p = Inl (MismatchedLengths 3 2)"
    using initialize_succeeds_iff [OF 1 2] 3 4 by simp
  then show ?thesis using 1 2 3 4 by blast
qed

text \<open>
  Claim C1, as the specification states it: after a successful \<^verbatim>\<open>initialize()\<close> the keys
  of the Expected Output Map are exactly 1 to N, and an output file that lacks an index
  in 1 to N makes \<^verbatim>\<open>initialize()\<close> fail. The Validator compares the two sizes and
  nothing else: with two groups and the output indices 1 and 3, \<^verbatim>\<open>initialize()\<close>
  succeeds, and index 2 has no entry.
\<close>

theorem initialize_keys_counterexample:
  "\<not> isl (initialize plainEngine
            [''in.txt'' \<mapsto> ''2\<newline>x 1\<newline>y 2'', ''uit.txt'' \<mapsto> ''1 a\<newline>3 c'']
            (newParser ''in.txt'' ''uit.txt'' (\<lambda>line. line) indexedRecord (pureCompare (=)) True))
   \<and> length (inputs (projr (initialize plainEngine
            [''in.txt'' \<mapsto> ''2\<newline>x 1\<newline>y 2'', ''uit.txt'' \<mapsto> ''1 a\<newline>3 c'']
            (newParser ''in.txt'' ''uit.txt'' (\<lambda>line. line) indexedRecord (pureCompare (=)) True)))) = 2
   \<and> map fst (outputs (projr (initialize plainEngine
            [''in.txt'' \<mapsto> ''2\<newline>x 1\<newline>y 2'', ''uit.txt'' \<mapsto> ''1 a\<newline>3 c'']
            (newParser ''in.txt'' ''uit.txt'' (\<lambda>line. line) indexedRecord (pureCompare (=)) True)))) = [1, 3]
   \<and> fst ` set (outputs (projr (initialize plainEngine
            [''in.txt'' \<mapsto> ''2\<newline>x 1\<newline>y 2'', ''uit.txt'' \<mapsto> ''1 a\<newline>3 c'']
            (newParser ''in.txt'' ''uit.txt'' (\<lambda>line. line) indexedRecord (pureCompare (=)) True)))) \<noteq> {1..2}"
proof -
  let ?r = "initialize plainEngine
            [''in.txt'' \<mapsto> ''2\<newline>x 1\<newline>y 2'', ''uit.txt'' \<mapsto> ''1 a\<newline>3 c'']
            (newParser ''in.txt'' ''uit.txt'' (\<lambda>line. line) indexedRecord (pureCompare (=)) True)"
  have e: "\<not> isl ?r \<and> length (inputs (projr ?r)) = 2 \<and> map fst (outputs (projr ?r)) = [1, 3]"
    by code_simp
  then have "set (map fst (outputs (projr ?r))) = {1, 3}" by simp
  then have "(3::int) \<in> fst ` set (outputs (projr ?r))" by simp
  moreover have "(3::int) \<notin> {1..2}" by simp
  ultimately have "fst ` set (outputs (projr ?r)) \<noteq> {1..2}" by metis
  then show ?thesis using e by blast
qed

text \<open>
  Claim C1, amended. After a successful \<^verbatim>\<open>initialize()\<close> the number of keys of the
  Expected Output Map equals the number N of parsed TestCase Groups, N is not zero and
  is the recorded test count; the key set is exactly 1 to N whenever every index of the
  output file lies in 1 to N. Hence \<^verbatim>\<open>initialize()\<close> fails whenever the number of
  distinct output indices differs from N.
\<close>

theorem initialize_counts:
  assumes "initialize eng fs p = Inr p'"
  shows "card (fst ` set (outputs p')) = length (inputs p') \<and> 0 < length (inputs p')
         \<and> testsExecuted p' = Exact (int (length (inputs p')))
         \<and> (fst ` set (outputs p') \<subseteq> {1..int (length (inputs p'))}
              \<longrightarrow> fst ` set (outputs p') = {1..int (length (inputs p'))})"
proof -
  obtain p1 p2 where 1: "readInputFile eng fs p = Inr p1"
    and 2: "readOutputFile fs p1 = Inr p2" and 3: "validateFileLengths p2 = Inr p'"
    using assms by (auto simp: initialize_def split: sum.splits)
  have d: "length (outputs p2) = card (fst ` set (outputs p2))"
    using readOutputFile_outputs [OF 2] outputs_size by auto
  have v: "length (inputs p2) = length (outputs p2)" "0 < length (inputs p2)"
    "p' = p2\<lparr>testCount := Exact (int (length (inputs p2)))\<rparr>"
    using 3 by (auto simp: validateFileLengths_def Let_def split: if_splits)
  have c: "card (fst ` set (outputs p')) = length (inputs p')" "0 < length (inputs p')"
    "testsExecuted p' = Exact (int (length (inputs p')))"
    using v d by (simp_all add: testsExecuted_def)
  have "fst ` set (outputs p') = {1..int (length (inputs p'))}"
    if "fst ` set (outputs p') \<subseteq> {1..int (length (inputs p'))}"
    using that c(1) by (intro card_subset_eq) auto
  then show ?thesis using c by blast
qed

text \<open>
  The theorem at two groups and the output indices 1 and 2.
\<close>

theorem initialize_counts_witness:
  "(\<exists>p'. initialize plainEngine
            [''in.txt'' \<mapsto> ''2\<newline>x 1\<newline>y 2'', ''uit.txt'' \<mapsto> ''1 a\<newline>2 b'']
            (newParser ''in.txt'' ''uit.txt'' (\<lambda>line. line) indexedRecord (pureCompare (=)) True) = Inr p'
         \<and> inputs p' = [[Some ''x 1''], [Some ''y 2'']]
         \<and> outputs p' = [(1, [''a'']), (2, [''b''])]
         \<and> card (fst ` set (outputs p')) = 2 \<and> testsExecuted p' = Exact 2
         \<and> fst ` set (outputs p') = {1..2})"
proof -
  let ?fs = "[''in.txt'' \<mapsto> ''2\<newline>x 1\<newline>y 2'', ''uit.txt'' \<mapsto> ''1 a\<newline>2 b'']"
  let ?p = "newParser ''in.txt'' ''uit.txt'' (\<lambda>line. line) indexedRecord (pureCompare (=)) True"
  have "case initialize plainEngine ?fs ?p of Inl _ \<Rightarrow> False
        | Inr p' \<Rightarrow> inputs p' = [[Some ''x 1''], [Some ''y 2'']]
            \<and> outputs p' = [(1, [''a'']), (2, [''b''])]"
    by code_simp
  then obtain p' where 1: "initialize plainEngine ?fs ?p = Inr p'"
    and 2: "inputs p' = [[Some ''x 1''], [Some ''y 2'']]"
    and 3: "outputs p' = [(1, [''a'']), (2, [''b''])]"
    by (auto split: sum.splits)
  have s: "fst ` set (outputs p') \<subseteq> {1..int (length (inputs p'))}"
    using 2 3 by simp
  show ?thesis
    using initialize_counts [OF 1] s 1 2 3 by (intro exI [of _ p']) simp
qed

section \<open>Decimal numerals and the round trip of a line\<close>

text \<open>
  A line passes the round-trip test of \<^verbatim>\<open>parseInt\<close> exactly when its trimmed text is the
  decimal numeral of an integer of magnitude at most \<open>2 ^ 53\<close>, or the engine prints
  the rounded double of a longer digit string as that very text.
\<close>

lemma digit_not_space: "isDigit c \<Longrightarrow> \<not> isWhiteSpace c"
  by (auto simp: isDigit_def isWhiteSpace_def)

lemma digit_not_sign: "isDigit c \<Longrightarrow> c \<noteq> CHR ''-'' \<and> c \<noteq> CHR ''+'' \<and> c \<noteq> CHR ''x'' \<and> c \<noteq> CHR ''X''"
  by (auto simp: isDigit_def)

lemma space_not_x: "isWhiteSpace c \<Longrightarrow> c \<noteq> CHR ''x'' \<and> c \<noteq> CHR ''X''"
  by (auto simp: isWhiteSpace_def)

lemma digitChar_digit: "d < 10 \<Longrightarrow> isDigit (digitChar d) \<and> digitVal (digitChar d) = d"
  by (simp add: isDigit_def digitVal_def digitChar_def)

lemma decValue_snoc: "decValue (ds @ [c]) = decValue ds * 10 + digitVal c"
  by (simp add: decValue_def)

lemma digitsOf_digits: "list_all isDigit (digitsOf n) \<and> digitsOf n \<noteq> []"
proof (induction n rule: digitsOf.induct)
  case (1 n)
  show ?case
  proof (cases "n < 10")
    case True
    then show ?thesis by (subst digitsOf.simps, subst digitsOf.simps) (simp add: digitChar_digit)
  next
    case False
    then have "list_all isDigit (digitsOf (n div 10))" using 1 by simp
    moreover have "isDigit (digitChar (n mod 10))" by (simp add: digitChar_digit)
    ultimately show ?thesis using False
      by (subst digitsOf.simps, subst (2) digitsOf.simps) simp
  qed
qed

lemma decValue_digitsOf: "decValue (digitsOf n) = n"
proof (induction n rule: digitsOf.induct)
  case (1 n)
  show ?case
  proof (cases "n < 10")
    case True
    then show ?thesis
      by (subst digitsOf.simps) (simp add: decValue_def digitChar_digit)
  next
    case False
    then have "decValue (digitsOf (n div 10)) = n div 10" using 1 by simp
    then show ?thesis using False
      by (subst digitsOf.simps) (simp add: decValue_snoc digitChar_digit)
  qed
qed

lemma trimStart_trim:
  "\<exists>ws. trimStart line = trim line @ ws \<and> list_all isWhiteSpace ws"
proof -
  let ?s = "dropWhile isWhiteSpace line"
  have e: "rev (takeWhile isWhiteSpace (rev ?s) @ dropWhile isWhiteSpace (rev ?s)) = ?s"
    by simp
  have "?s = trim line @ rev (takeWhile isWhiteSpace (rev ?s))"
    using e [unfolded rev_append] by (simp only: trim_def)
  moreover have "list_all isWhiteSpace (rev (takeWhile isWhiteSpace (rev ?s)))"
    by (simp add: list_all_iff) (meson set_takeWhileD)
  ultimately show ?thesis unfolding trimStart_def by blast
qed

lemma takeWhile_digits:
  "list_all isDigit ds \<Longrightarrow> list_all isWhiteSpace ws \<Longrightarrow> takeWhile isDigit (ds @ ws) = ds"
proof -
  assume d: "list_all isDigit ds" and w: "list_all isWhiteSpace ws"
  have "takeWhile isDigit ws = []"
    using w by (cases ws) (auto simp: digit_not_space)
  then show ?thesis using d by (simp add: list_all_iff takeWhile_append2)
qed

lemma no_hex_prefix:
  assumes "list_all isDigit ds" and "list_all isWhiteSpace ws"
  shows "take 2 (ds @ ws) \<noteq> ''0x'' \<and> take 2 (ds @ ws) \<noteq> ''0X''"
proof -
  have a: "\<forall>c \<in> set (ds @ ws). c \<noteq> CHR ''x'' \<and> c \<noteq> CHR ''X''"
    using assms digit_not_sign space_not_x by (auto simp: list_all_iff)
  have "CHR ''x'' \<in> set ''0x''" "CHR ''X'' \<in> set ''0X''" by simp_all
  then show ?thesis using a
    by (metis in_set_takeD)
qed

lemma signedDigits_show:
  assumes "trim line = showInt n"
  shows "\<exists>ws. list_all isWhiteSpace ws \<and> signedDigits line = (n < 0, digitsOf (nat \<bar>n\<bar>) @ ws)"
proof -
  obtain ws where ws: "trimStart line = trim line @ ws" "list_all isWhiteSpace ws"
    using trimStart_trim by blast
  show ?thesis
  proof (cases "n < 0")
    case True
    then have "trimStart line = CHR ''-'' # digitsOf (nat \<bar>n\<bar>) @ ws"
      using ws assms by (simp add: showInt_def)
    then show ?thesis using ws True by (auto simp: signedDigits_def)
  next
    case False
    obtain d ds where d: "digitsOf (nat \<bar>n\<bar>) = d # ds" "isDigit d"
      using digitsOf_digits [of "nat \<bar>n\<bar>"] by (cases "digitsOf (nat \<bar>n\<bar>)") auto
    have "trimStart line = digitsOf (nat \<bar>n\<bar>) @ ws"
      using ws assms False by (simp add: showInt_def)
    then show ?thesis using ws False d digit_not_sign [of d] by (auto simp: signedDigits_def)
  qed
qed

lemma signedNumber_exact:
  "\<bar>n\<bar> \<le> 2 ^ 53 \<Longrightarrow> signedNumber (n < 0) (nat \<bar>n\<bar>) = Exact n"
  by (auto simp: signedNumber_def toNumber_def)

lemma parse_show:
  assumes "trim line = showInt n" and "\<bar>n\<bar> \<le> 2 ^ 53"
  shows "parseInt10 (Some line) = Exact n" and "parseInt line = Exact n"
proof -
  obtain ws where ws: "list_all isWhiteSpace ws"
    "signedDigits line = (n < 0, digitsOf (nat \<bar>n\<bar>) @ ws)"
    using signedDigits_show [OF assms(1)] by blast
  have t: "takeWhile isDigit (digitsOf (nat \<bar>n\<bar>) @ ws) = digitsOf (nat \<bar>n\<bar>)"
    using takeWhile_digits digitsOf_digits ws(1) by blast
  have h: "take 2 (digitsOf (nat \<bar>n\<bar>) @ ws) \<noteq> ''0x'' \<and> take 2 (digitsOf (nat \<bar>n\<bar>) @ ws) \<noteq> ''0X''"
    using no_hex_prefix digitsOf_digits ws(1) by blast
  have ne: "digitsOf (nat \<bar>n\<bar>) \<noteq> []" using digitsOf_digits by blast
  show "parseInt10 (Some line) = Exact n"
    using ws(2) t ne assms(2)
    by (simp add: parseInt10_def decValue_digitsOf signedNumber_exact)
  show "parseInt line = Exact n"
    using ws(2) t ne h assms(2)
    by (simp add: parseInt_def decValue_digitsOf signedNumber_exact)
qed

lemma signedNumber_bound: "signedNumber neg v = Exact n \<Longrightarrow> \<bar>n\<bar> \<le> 2 ^ 53"
  by (auto simp: signedNumber_def toNumber_def split: if_splits)

lemma parseInt10_bound: "parseInt10 v = Exact n \<Longrightarrow> \<bar>n\<bar> \<le> 2 ^ 53"
  by (auto simp: parseInt10_def Let_def split: option.splits prod.splits if_splits dest: signedNumber_bound)

lemma parseInt_bound: "parseInt line = Exact n \<Longrightarrow> \<bar>n\<bar> \<le> 2 ^ 53"
  by (auto simp: parseInt_def Let_def split: prod.splits if_splits dest: signedNumber_bound)

lemma isGroupMarker_iff:
  "isGroupMarker eng (Some line) \<longleftrightarrow>
     (\<exists>n. \<bar>n\<bar> \<le> 2 ^ 53 \<and> trim line = showInt n)
     \<or> (\<exists>n. parseInt10 (Some line) = Rounded n \<and> roundedToString eng n = trim line)"
proof
  assume m: "isGroupMarker eng (Some line)"
  show "(\<exists>n. \<bar>n\<bar> \<le> 2 ^ 53 \<and> trim line = showInt n)
     \<or> (\<exists>n. parseInt10 (Some line) = Rounded n \<and> roundedToString eng n = trim line)"
  proof (cases "parseInt10 (Some line)")
    case NaN
    then show ?thesis using m by (simp add: isGroupMarker_def isNaN_def)
  next
    case (Exact n)
    then show ?thesis using m parseInt10_bound [OF Exact]
      by (auto simp: isGroupMarker_def jsString_def)
  next
    case (Rounded n)
    then show ?thesis using m by (auto simp: isGroupMarker_def jsString_def)
  qed
next
  assume "(\<exists>n. \<bar>n\<bar> \<le> 2 ^ 53 \<and> trim line = showInt n)
     \<or> (\<exists>n. parseInt10 (Some line) = Rounded n \<and> roundedToString eng n = trim line)"
  then show "isGroupMarker eng (Some line)"
    by (auto simp: isGroupMarker_def jsString_def isNaN_def parse_show(1))
qed

lemma looksGrouped_iff:
  "looksGrouped eng line \<longleftrightarrow>
     (\<exists>n. 1 < n \<and> n \<le> 2 ^ 53 \<and> trim line = showInt n)
     \<or> (\<exists>n. parseInt line = Rounded n \<and> 0 < n \<and> roundedToString eng n = trim line)"
proof
  assume m: "looksGrouped eng line"
  show "(\<exists>n. 1 < n \<and> n \<le> 2 ^ 53 \<and> trim line = showInt n)
     \<or> (\<exists>n. parseInt line = Rounded n \<and> 0 < n \<and> roundedToString eng n = trim line)"
  proof (cases "parseInt line")
    case NaN
    then show ?thesis using m by (simp add: looksGrouped_def isNaN_def)
  next
    case (Exact n)
    then show ?thesis using m parseInt_bound [OF Exact]
      by (auto simp: looksGrouped_def jsString_def greaterThanOne_def)
  next
    case (Rounded n)
    then show ?thesis using m by (auto simp: looksGrouped_def jsString_def greaterThanOne_def)
  qed
next
  assume a: "(\<exists>n. 1 < n \<and> n \<le> 2 ^ 53 \<and> trim line = showInt n)
     \<or> (\<exists>n. parseInt line = Rounded n \<and> 0 < n \<and> roundedToString eng n = trim line)"
  then show "looksGrouped eng line"
  proof
    assume "\<exists>n. 1 < n \<and> n \<le> 2 ^ 53 \<and> trim line = showInt n"
    then obtain n where n: "1 < n" "n \<le> 2 ^ 53" "trim line = showInt n" by blast
    then have "parseInt line = Exact n" using parse_show(2) [of line n] by simp
    then show ?thesis using n by (simp add: looksGrouped_def jsString_def isNaN_def greaterThanOne_def)
  next
    assume "\<exists>n. parseInt line = Rounded n \<and> 0 < n \<and> roundedToString eng n = trim line"
    then show ?thesis by (auto simp: looksGrouped_def jsString_def isNaN_def greaterThanOne_def)
  qed
qed

section \<open>Parsing the input file\<close>

lemma parseInputLines_simple:
  assumes "isSimpleNumbersFile eng lines"
  shows "parseInputLines eng lines p =
     Inr (p\<lparr>inputs := map (\<lambda>line. [parseInput p (Some line)])
                           (if readInputCasesNumber p then drop 1 lines else lines),
             testCount := Exact (int (length (if readInputCasesNumber p then drop 1 lines else lines)))\<rparr>)"
  using assms by (simp add: parseInputLines_def Let_def)

text \<open>
  Claim C5, as the specification states it: where the simple-number test holds for
  every non-blank line, the number of groups is the number of non-blank lines minus one
  when a leading count line is expected. A file without a non-blank line passes the
  test (there is no line to fail it) and gives no group, which is not \<open>0 - 1\<close>.
\<close>

theorem simple_numeric_empty_counterexample:
  "isSimpleNumbersFile plainEngine (nonBlankLines '''')
   \<and> readInputCasesNumber (newParser ''in.txt'' ''uit.txt'' (\<lambda>line. line) indexedRecord (pureCompare (=)) True)
   \<and> \<not> isl (readInputFile plainEngine [''in.txt'' \<mapsto> '''']
             (newParser ''in.txt'' ''uit.txt'' (\<lambda>line. line) indexedRecord (pureCompare (=)) True))
   \<and> int (length (inputs (projr (readInputFile plainEngine [''in.txt'' \<mapsto> '''']
             (newParser ''in.txt'' ''uit.txt'' (\<lambda>line. line) indexedRecord (pureCompare (=)) True))))) = 0
   \<and> int (length (nonBlankLines '''')) - 1 = - 1"
  by code_simp

text \<open>
  Claim C5, amended. Where every non-blank line passes the simple-number test, parsing
  succeeds, every TestCase Group has exactly one record, and the number of groups is the
  number of non-blank lines minus one when a leading count line is expected and there is
  a non-blank line, and the number of non-blank lines otherwise.
\<close>

theorem simple_numeric_mode:
  assumes "fs (inputFile p) = Some content"
    and "isSimpleNumbersFile eng (nonBlankLines content)"
  shows "\<exists>p'. readInputFile eng fs p = Inr p'
           \<and> inputs p' = map (\<lambda>line. [parseInput p (Some line)])
                 (if readInputCasesNumber p then drop 1 (nonBlankLines content)
                  else nonBlankLines content)
           \<and> list_all (\<lambda>g. length g = 1) (inputs p')
           \<and> int (length (inputs p')) =
               (if readInputCasesNumber p \<and> nonBlankLines content \<noteq> []
                then int (length (nonBlankLines content)) - 1
                else int (length (nonBlankLines content)))"
proof -
  let ?lines = "nonBlankLines content"
  let ?sel = "if readInputCasesNumber p then drop 1 ?lines else ?lines"
  let ?p' = "p\<lparr>inputs := map (\<lambda>line. [parseInput p (Some line)]) ?sel,
                testCount := Exact (int (length ?sel))\<rparr>"
  have r: "readInputFile eng fs p = Inr ?p'"
    using assms parseInputLines_simple [OF assms(2), of p]
    by (simp add: readInputFile_def readFile_def)
  have i: "inputs ?p' = map (\<lambda>line. [parseInput p (Some line)]) ?sel"
    by simp
  have a: "list_all (\<lambda>g. length g = 1) (inputs ?p')"
    by (simp add: list_all_iff)
  have b: "int (length (inputs ?p')) =
               (if readInputCasesNumber p \<and> ?lines \<noteq> []
                then int (length ?lines) - 1 else int (length ?lines))"
    by (cases ?lines) auto
  show ?thesis using r i a b by blast
qed

text \<open>
  The theorem at a count line and two numbers.
\<close>

theorem simple_numeric_mode_witness:
  "isSimpleNumbersFile plainEngine (nonBlankLines ''2\<newline>10\<newline>-7'')
   \<and> (\<exists>p'. readInputFile plainEngine [''in.txt'' \<mapsto> ''2\<newline>10\<newline>-7'']
             (newParser ''in.txt'' ''uit.txt'' (\<lambda>line. line) indexedRecord (pureCompare (=)) True) = Inr p'
          \<and> list_all (\<lambda>g. length g = 1) (inputs p') \<and> int (length (inputs p')) = 2)"
proof -
  let ?fs = "[''in.txt'' \<mapsto> ''2\<newline>10\<newline>-7'']"
  let ?p = "newParser ''in.txt'' ''uit.txt'' (\<lambda>line. line) indexedRecord (pureCompare (=)) True"
  have 1: "?fs (inputFile ?p) = Some ''2\<newline>10\<newline>-7''" by (simp add: newParser_def)
  have 2: "isSimpleNumbersFile plainEngine (nonBlankLines ''2\<newline>10\<newline>-7'')" by code_simp
  have 3: "readInputCasesNumber ?p \<and> nonBlankLines ''2\<newline>10\<newline>-7'' \<noteq> []
           \<and> int (length (nonBlankLines ''2\<newline>10\<newline>-7'')) - 1 = 2" by code_simp
  show ?thesis
    using simple_numeric_mode [of ?fs ?p "''2\<newline>10\<newline>-7''" plainEngine, OF 1 2] 2 3 by auto
qed

text \<open>
  Claim C6. When no leading count line is expected and the input is not a simple-number
  file, parsing fails with the error for grouped input if some non-blank line passes the
  round-trip test of \<^verbatim>\<open>parseInt\<close> with a value above 1, and otherwise every non-blank
  line becomes one single-record TestCase Group, in line order. Passing that test means:
  the trimmed line is the decimal numeral of an integer above 1 (or, for a digit string
  beyond \<open>2 ^ 53\<close>, the text that the engine prints for its rounded double).
\<close>

theorem ungrouped_mode:
  assumes "fs (inputFile p) = Some content" and "\<not> readInputCasesNumber p"
    and "\<not> isSimpleNumbersFile eng (nonBlankLines content)"
  shows "(if list_ex (looksGrouped eng) (nonBlankLines content)
          then readInputFile eng fs p = Inl GroupedInputsNotSupported
          else \<exists>p'. readInputFile eng fs p = Inr p'
                 \<and> inputs p' = map (\<lambda>line. [parseInput p (Some line)]) (nonBlankLines content)
                 \<and> testCount p' = Exact (int (length (nonBlankLines content))))
       \<and> (list_ex (looksGrouped eng) (nonBlankLines content) \<longleftrightarrow>
            (\<exists>line \<in> set (nonBlankLines content).
               (\<exists>n. 1 < n \<and> n \<le> 2 ^ 53 \<and> trim line = showInt n)
               \<or> (\<exists>n. parseInt line = Rounded n \<and> 0 < n \<and> roundedToString eng n = trim line)))"
proof -
  have r: "readInputFile eng fs p = parseInputLines eng (nonBlankLines content) p"
    using assms(1) by (simp add: readInputFile_def readFile_def)
  have a: "if list_ex (looksGrouped eng) (nonBlankLines content)
          then readInputFile eng fs p = Inl GroupedInputsNotSupported
          else \<exists>p'. readInputFile eng fs p = Inr p'
                 \<and> inputs p' = map (\<lambda>line. [parseInput p (Some line)]) (nonBlankLines content)
                 \<and> testCount p' = Exact (int (length (nonBlankLines content)))"
    unfolding r using assms(2,3) by (simp add: parseInputLines_def Let_def)
  have b: "list_ex (looksGrouped eng) (nonBlankLines content) \<longleftrightarrow>
            (\<exists>line \<in> set (nonBlankLines content).
               (\<exists>n. 1 < n \<and> n \<le> 2 ^ 53 \<and> trim line = showInt n)
               \<or> (\<exists>n. parseInt line = Rounded n \<and> 0 < n \<and> roundedToString eng n = trim line))"
    unfolding list_ex_iff using looksGrouped_iff [of eng] by blast
  show ?thesis using a b by blast
qed

text \<open>
  The theorem at a file with the line 3, which fails, and at one with the line 1, which
  gives three groups.
\<close>

theorem ungrouped_mode_witness:
  "readInputFile plainEngine [''in.txt'' \<mapsto> ''a b\<newline>3\<newline>c d'']
      (newParser ''in.txt'' ''uit.txt'' (\<lambda>line. line) indexedRecord (pureCompare (=)) False)
     = Inl GroupedInputsNotSupported
   \<and> (\<exists>p'. readInputFile plainEngine [''in.txt'' \<mapsto> ''a b\<newline>1\<newline>c d'']
             (newParser ''in.txt'' ''uit.txt'' (\<lambda>line. line) indexedRecord (pureCompare (=)) False) = Inr p'
          \<and> inputs p' = [[Some ''a b''], [Some ''1''], [Some ''c d'']])"
proof -
  let ?p = "newParser ''in.txt'' ''uit.txt'' (\<lambda>line. line) indexedRecord (pureCompare (=)) False"
  have 1: "[''in.txt'' \<mapsto> ''a b\<newline>3\<newline>c d''] (inputFile ?p) = Some ''a b\<newline>3\<newline>c d''"
    "[''in.txt'' \<mapsto> ''a b\<newline>1\<newline>c d''] (inputFile ?p) = Some ''a b\<newline>1\<newline>c d''"
    by (simp_all add: newParser_def)
  have 2: "\<not> readInputCasesNumber ?p" by (simp add: newParser_def)
  have 3: "\<not> isSimpleNumbersFile plainEngine (nonBlankLines ''a b\<newline>3\<newline>c d'')"
    "\<not> isSimpleNumbersFile plainEngine (nonBlankLines ''a b\<newline>1\<newline>c d'')"
    by code_simp+
  have 4: "list_ex (looksGrouped plainEngine) (nonBlankLines ''a b\<newline>3\<newline>c d'')"
    "\<not> list_ex (looksGrouped plainEngine) (nonBlankLines ''a b\<newline>1\<newline>c d'')"
    by code_simp+
  have 5: "map (\<lambda>line. [parseInput ?p (Some line)]) (nonBlankLines ''a b\<newline>1\<newline>c d'')
           = [[Some ''a b''], [Some ''1''], [Some ''c d'']]"
    by code_simp
  show ?thesis
    using ungrouped_mode [of "[''in.txt'' \<mapsto> ''a b\<newline>3\<newline>c d'']" ?p "''a b\<newline>3\<newline>c d''" plainEngine,
                          OF 1(1) 2 3(1)]
          ungrouped_mode [of "[''in.txt'' \<mapsto> ''a b\<newline>1\<newline>c d'']" ?p "''a b\<newline>1\<newline>c d''" plainEngine,
                          OF 1(2) 2 3(2)] 4 5
    by auto
qed

section \<open>The grouped mode, line by line\<close>

lemma readGroup_eq:
  "readGroup pin lines n cur grp =
     (if n = 0 \<or> length grp + n \<le> 2 ^ 32 - 1
      then Inr (grp @ map (\<lambda>j. pin (lineAt lines (cur + j))) [0..<n], cur + n)
      else Inl InvalidArrayLength)"
proof (induction n arbitrary: cur grp)
  case 0
  then show ?case by simp
next
  case (Suc n)
  have m: "map (\<lambda>j. pin (lineAt lines (cur + j))) [0..<Suc n]
           = pin (lineAt lines cur) # map (\<lambda>j. pin (lineAt lines (Suc cur + j))) [0..<n]"
    by (simp add: upt_conv_Cons map_Suc_upt [symmetric] del: upt_Suc)
  show ?case
  proof (cases "length grp < 2 ^ 32 - 1")
    case True
    then show ?thesis
      by (simp only: readGroup.simps push_def if_True sum.case Suc.IH m) auto
  next
    case False
    then show ?thesis by (simp add: push_def)
  qed
qed

text \<open>
  A loop over the test cases that is asked for more rounds than the array of groups can
  take never completes: every count from \<open>2 ^ 32\<close> on ends in the same error.
\<close>

lemma readTestCases_overflow:
  "length ins \<le> 2 ^ 32 - 1 \<Longrightarrow> 2 ^ 32 - 1 < length ins + k \<Longrightarrow>
   readTestCases eng pin lines k cur ins = Inl InvalidArrayLength"
proof (induction k arbitrary: cur ins)
  case 0
  then show ?case by simp
next
  case (Suc k)
  have step: "readTestCases eng pin lines k c (ins @ [g]) = Inl InvalidArrayLength"
    if "length ins < 2 ^ 32 - 1" for c g
    using Suc.IH [of "ins @ [g]" c] Suc.prems that by simp
  show ?case
  proof (cases "length ins < 2 ^ 32 - 1")
    case True
    then show ?thesis
      using step [OF True]
      by (simp add: Let_def readGroup_eq push_def)
  next
    case False
    then show ?thesis
      by (simp add: Let_def readGroup_eq push_def)
  qed
qed

text \<open>
  The grouped input of the package's README: two test cases, of three and of two records.
\<close>

lemma readme_grouped_input:
  "inputs (projr (parseInputLines plainEngine
     (nonBlankLines ''2\<newline>3\<newline>1 2 3\<newline>4 5 6\<newline>7 8 9\<newline>2\<newline>1 1\<newline>2 2'')
     (newParser ''in.txt'' ''uit.txt'' (\<lambda>line. line) indexedRecord (pureCompare (=)) True)))
   = [[Some ''1 2 3'', Some ''4 5 6'', Some ''7 8 9''], [Some ''1 1'', Some ''2 2'']]"
  by code_simp

text \<open>
  Claim C4, as the specification states it: in the grouped mode a line is a group-size
  marker only if it is a positive integer that survives the round trip, and any other
  line becomes a one-record group. The parser tests the round trip alone: the line
  \<^verbatim>\<open>0\<close> is taken as a marker and gives an empty group, not the one-record group of
  the line.
\<close>

theorem zero_marker_counterexample:
  "parseInt10 (Some ''0'') = Exact 0
   \<and> isGroupMarker plainEngine (Some ''0'')
   \<and> \<not> isl (readInputFile plainEngine [''in.txt'' \<mapsto> ''2\<newline>0\<newline>abc'']
              (newParser ''in.txt'' ''uit.txt'' (\<lambda>line. line) indexedRecord (pureCompare (=)) True))
   \<and> inputs (projr (readInputFile plainEngine [''in.txt'' \<mapsto> ''2\<newline>0\<newline>abc'']
              (newParser ''in.txt'' ''uit.txt'' (\<lambda>line. line) indexedRecord (pureCompare (=)) True)))
       = [[], [Some ''abc'']]"
  by code_simp

text \<open>
  Claim C4, amended. In the grouped mode a line is treated as a group-size marker if and
  only if it is the decimal numeral of an integer, of any sign, up to surrounding white
  space (or, for a digit string beyond \<open>2 ^ 53\<close>, the text that the engine prints for
  its rounded double); so \<^verbatim>\<open>3\<close> is a marker, \<^verbatim>\<open>03\<close> and \<^verbatim>\<open>3.0\<close> are not. One round of
  the loop over the test cases, on a marker of value \<open>G\<close> below \<open>2 ^ 32\<close>, consumes
  the marker and the next \<open>max G 0\<close> line positions as the records of one group, which
  are the records of the following lines where these exist; on any other line it makes
  the line itself a one-record group.
\<close>

theorem grouped_mode_step:
  assumes "length ins < 2 ^ 32 - 1"
  shows "(isGroupMarker eng (lineAt lines cur) \<longleftrightarrow>
            (\<exists>line. lineAt lines cur = Some line
               \<and> ((\<exists>n. \<bar>n\<bar> \<le> 2 ^ 53 \<and> trim line = showInt n)
                  \<or> (\<exists>n. parseInt10 (Some line) = Rounded n \<and> roundedToString eng n = trim line))))
       \<and> (\<forall>G. isGroupMarker eng (lineAt lines cur) \<and> parseInt10 (lineAt lines cur) = Exact G
               \<and> G < 2 ^ 32 \<longrightarrow>
             readTestCases eng pin lines (Suc k) cur ins
               = readTestCases eng pin lines k (cur + 1 + nat G)
                   (ins @ [map (\<lambda>j. pin (lineAt lines (cur + 1 + j))) [0..<nat G]])
             \<and> (cur + nat G < length lines \<longrightarrow>
                  map (\<lambda>j. pin (lineAt lines (cur + 1 + j))) [0..<nat G]
                    = map (\<lambda>line. pin (Some line)) (take (nat G) (drop (cur + 1) lines))))
       \<and> (\<not> isGroupMarker eng (lineAt lines cur) \<longrightarrow>
             readTestCases eng pin lines (Suc k) cur ins
               = readTestCases eng pin lines k (cur + 1) (ins @ [[pin (lineAt lines cur)]]))
       \<and> isGroupMarker eng (Some ''3'') \<and> \<not> isGroupMarker eng (Some ''03'')
       \<and> \<not> isGroupMarker eng (Some ''3.0'')"
proof -
  have a: "isGroupMarker eng (lineAt lines cur) \<longleftrightarrow>
            (\<exists>line. lineAt lines cur = Some line
               \<and> ((\<exists>n. \<bar>n\<bar> \<le> 2 ^ 53 \<and> trim line = showInt n)
                  \<or> (\<exists>n. parseInt10 (Some line) = Rounded n \<and> roundedToString eng n = trim line)))"
  proof (cases "lineAt lines cur")
    case None
    then show ?thesis by (simp add: isGroupMarker_def)
  next
    case (Some line)
    then show ?thesis using isGroupMarker_iff [of eng line] by simp
  qed
  have b: "readTestCases eng pin lines (Suc k) cur ins
               = readTestCases eng pin lines k (cur + 1 + nat G)
                   (ins @ [map (\<lambda>j. pin (lineAt lines (cur + 1 + j))) [0..<nat G]])"
    if "isGroupMarker eng (lineAt lines cur)" "parseInt10 (lineAt lines cur) = Exact G" "G < 2 ^ 32"
    for G
  proof -
    have "nat G \<le> 2 ^ 32 - 1" using that(3) by simp
    then have "readGroup pin lines (nat G) (cur + 1) []
          = Inr (map (\<lambda>j. pin (lineAt lines (cur + 1 + j))) [0..<nat G], cur + 1 + nat G)"
      by (simp add: readGroup_eq)
    then show ?thesis using that(1,2) assms
      by (simp add: Let_def loopCount_def push_def)
  qed
  have c: "map (\<lambda>j. pin (lineAt lines (cur + 1 + j))) [0..<nat G]
             = map (\<lambda>line. pin (Some line)) (take (nat G) (drop (cur + 1) lines))"
    if "cur + nat G < length lines" for G
  proof (rule nth_equalityI)
    show "length (map (\<lambda>j. pin (lineAt lines (cur + 1 + j))) [0..<nat G])
          = length (map (\<lambda>line. pin (Some line)) (take (nat G) (drop (cur + 1) lines)))"
      using that by simp
  next
    fix i assume "i < length (map (\<lambda>j. pin (lineAt lines (cur + 1 + j))) [0..<nat G])"
    then have i: "i < nat G" by simp
    then show "map (\<lambda>j. pin (lineAt lines (cur + 1 + j))) [0..<nat G] ! i
          = map (\<lambda>line. pin (Some line)) (take (nat G) (drop (cur + 1) lines)) ! i"
      using that by (simp add: lineAt_def)
  qed
  have d: "readTestCases eng pin lines (Suc k) cur ins
               = readTestCases eng pin lines k (cur + 1) (ins @ [[pin (lineAt lines cur)]])"
    if "\<not> isGroupMarker eng (lineAt lines cur)"
    using that assms by (simp add: Let_def push_def)
  have p3: "parseInt10 (Some ''3'') = Exact 3" "parseInt10 (Some ''03'') = Exact 3"
    "parseInt10 (Some ''3.0'') = Exact 3"
    by code_simp+
  have t3: "showInt 3 = trim ''3''" "showInt 3 \<noteq> trim ''03''" "showInt 3 \<noteq> trim ''3.0''"
    by code_simp+
  have e: "isGroupMarker eng (Some ''3'') \<and> \<not> isGroupMarker eng (Some ''03'')
       \<and> \<not> isGroupMarker eng (Some ''3.0'')"
    using p3 t3 by (simp add: isGroupMarker_def jsString_def isNaN_def)
  show ?thesis using a b c d e by blast
qed

text \<open>
  The theorem at the marker 3 followed by three lines.
\<close>

theorem grouped_mode_step_witness:
  "isGroupMarker plainEngine (lineAt [''2'', ''3'', ''a'', ''b'', ''c'', ''x y''] 1)
   \<and> parseInt10 (lineAt [''2'', ''3'', ''a'', ''b'', ''c'', ''x y''] 1) = Exact 3
   \<and> readTestCases plainEngine (\<lambda>line. line) [''2'', ''3'', ''a'', ''b'', ''c'', ''x y''] (Suc 1) 1 []
       = readTestCases plainEngine (\<lambda>line. line) [''2'', ''3'', ''a'', ''b'', ''c'', ''x y''] 1 5
           [[Some ''a'', Some ''b'', Some ''c'']]
   \<and> readTestCases plainEngine (\<lambda>line. line) [''2'', ''3'', ''a'', ''b'', ''c'', ''x y''] 1 5
           [[Some ''a'', Some ''b'', Some ''c'']]
       = Inr [[Some ''a'', Some ''b'', Some ''c''], [Some ''x y'']]"
proof -
  let ?L = "[''2'', ''3'', ''a'', ''b'', ''c'', ''x y'']"
  have 0: "length ([] :: string option list list) < 2 ^ 32 - 1" by simp
  have 1: "isGroupMarker plainEngine (lineAt ?L 1)" by code_simp
  have 2: "parseInt10 (lineAt ?L 1) = Exact 3" by code_simp
  have 3: "(3::int) < 2 ^ 32" by simp
  have 4: "map (\<lambda>j. (\<lambda>line. line) (lineAt ?L (1 + 1 + j))) [0..<nat 3]
           = [Some ''a'', Some ''b'', Some ''c'']"
    by code_simp
  have 5: "readTestCases plainEngine (\<lambda>line. line) ?L 1 5 [[Some ''a'', Some ''b'', Some ''c'']]
       = Inr [[Some ''a'', Some ''b'', Some ''c''], [Some ''x y'']]"
    by code_simp
  have 6: "1 + 1 + nat 3 = (5::nat)" by simp
  have "readTestCases plainEngine (\<lambda>line. line) ?L (Suc 1) 1 []
       = readTestCases plainEngine (\<lambda>line. line) ?L 1 (1 + 1 + nat 3)
           ([] @ [map (\<lambda>j. (\<lambda>line. line) (lineAt ?L (1 + 1 + j))) [0..<nat 3]])"
    using grouped_mode_step [of "[]" plainEngine ?L 1 "\<lambda>line. line" 1, OF 0] 1 2 3 by blast
  then have "readTestCases plainEngine (\<lambda>line. line) ?L (Suc 1) 1 []
       = readTestCases plainEngine (\<lambda>line. line) ?L 1 5 [[Some ''a'', Some ''b'', Some ''c'']]"
    by (simp only: 4 6 append_Nil)
  then show ?thesis using 1 2 5 by blast
qed

section \<open>What makes the runners raise\<close>

lemma runnerLoop_raises:
  "(fst (runnerLoop fn index groups p reported) = None
      \<longleftrightarrow> (\<forall>i < length groups. int (index + i) + 1 \<in> fst ` set (outputs p)))
   \<and> (\<forall>e. fst (runnerLoop fn index groups p reported) = Some e \<longrightarrow>
         (\<exists>i < length groups. e = NoExpectedOutput (index + i + 1)
            \<and> int (index + i) + 1 \<notin> fst ` set (outputs p)))"
proof (induction groups arbitrary: index p reported)
  case Nil
  then show ?case by simp
next
  case (Cons g groups)
  let ?K = "fst ` set (outputs p)"
  show ?case
  proof (cases "map_of (outputs p) (int index + 1)")
    case None
    have r: "fst (runnerLoop fn index (g # groups) p reported)
             = Some (NoExpectedOutput (index + 1))"
      using None by simp
    have k: "int (index + 0) + 1 \<notin> ?K" using None by (simp add: map_of_eq_None_iff)
    have z: "(0::nat) < length (g # groups)" by simp
    have 1: "\<not> (\<forall>i < length (g # groups). int (index + i) + 1 \<in> ?K)"
      using k z by blast
    have "NoExpectedOutput (index + 1) = NoExpectedOutput (index + 0 + 1)" by simp
    then have 2: "\<exists>i < length (g # groups). NoExpectedOutput (index + 1) = NoExpectedOutput (index + i + 1)
            \<and> int (index + i) + 1 \<notin> ?K"
      using k z by blast
    have 3: "\<exists>i < length (g # groups). e = NoExpectedOutput (index + i + 1)
            \<and> int (index + i) + 1 \<notin> ?K"
      if "Some (NoExpectedOutput (index + 1)) = Some e" for e
      using that 2 by (metis option.inject)
    show ?thesis unfolding r using 1 3 by (metis option.distinct(1))
  next
    case (Some expected)
    then have "map_of (outputs p) (int index + 1) \<noteq> None" by simp
    then have k0: "int index + 1 \<in> ?K" by (simp add: map_of_eq_None_iff)
    obtain result g' where f: "fn g = (result, g')" by (cases "fn g")
    obtain same result' expected' where c: "compareArrays p result expected = (same, result', expected')"
      by (cases "compareArrays p result expected")
    let ?p = "p\<lparr>inputs := (inputs p)[index := g'],
                outputs := setEntry (int index + 1) expected' (outputs p)\<rparr>"
    let ?rep = "if \<not> same then reported @ [(index + 1, g', expected', result')] else reported"
    have s: "runnerLoop fn index (g # groups) p reported = runnerLoop fn (index + 1) groups ?p ?rep"
      using Some f c by simp
    have K: "fst ` set (outputs ?p) = ?K" by (simp add: setEntry_keyset)
    have ih: "(fst (runnerLoop fn (index + 1) groups ?p ?rep) = None
      \<longleftrightarrow> (\<forall>i < length groups. int (index + 1 + i) + 1 \<in> ?K))
   \<and> (\<forall>e. fst (runnerLoop fn (index + 1) groups ?p ?rep) = Some e \<longrightarrow>
         (\<exists>i < length groups. e = NoExpectedOutput (index + 1 + i + 1)
            \<and> int (index + 1 + i) + 1 \<notin> ?K))"
      by (rule Cons.IH [of "index + 1" ?p ?rep, unfolded K])
    have a: "(\<forall>i < length (g # groups). int (index + i) + 1 \<in> ?K)
          \<longleftrightarrow> (\<forall>i < length groups. int (index + 1 + i) + 1 \<in> ?K)"
    proof
      assume h: "\<forall>i < length (g # groups). int (index + i) + 1 \<in> ?K"
      show "\<forall>i < length groups. int (index + 1 + i) + 1 \<in> ?K"
      proof (intro allI impI)
        fix i assume "i < length groups"
        then have "Suc i < length (g # groups)" by simp
        then have "int (index + Suc i) + 1 \<in> ?K" using h by blast
        then show "int (index + 1 + i) + 1 \<in> ?K" by simp
      qed
    next
      assume h: "\<forall>i < length groups. int (index + 1 + i) + 1 \<in> ?K"
      show "\<forall>i < length (g # groups). int (index + i) + 1 \<in> ?K"
      proof (intro allI impI)
        fix i assume i: "i < length (g # groups)"
        show "int (index + i) + 1 \<in> ?K"
        proof (cases i)
          case 0
          then show ?thesis using k0 by simp
        next
          case (Suc j)
          then have "j < length groups" using i by simp
          then have "int (index + 1 + j) + 1 \<in> ?K" using h by blast
          then show ?thesis using Suc by simp
        qed
      qed
    qed
    have b: "\<exists>i < length (g # groups). e = NoExpectedOutput (index + i + 1)
            \<and> int (index + i) + 1 \<notin> ?K"
      if h: "fst (runnerLoop fn (index + 1) groups ?p ?rep) = Some e" for e
    proof -
      obtain i where i: "i < length groups" "e = NoExpectedOutput (index + 1 + i + 1)"
        "int (index + 1 + i) + 1 \<notin> ?K"
        using ih h by blast
      have "Suc i < length (g # groups)" using i(1) by simp
      moreover have "e = NoExpectedOutput (index + Suc i + 1)" using i(2) by simp
      moreover have "int (index + Suc i) + 1 \<notin> ?K" using i(3) by simp
      ultimately show ?thesis by blast
    qed
    show ?thesis unfolding s using ih a b by blast
  qed
qed

lemma runner_raises_only_missing:
  "(fst (runner p fn) = None
      \<longleftrightarrow> (\<forall>i < length (inputs p). map_of (outputs p) (int i + 1) \<noteq> None))
   \<and> (\<forall>e. fst (runner p fn) = Some e \<longrightarrow>
         (\<exists>i < length (inputs p). e = NoExpectedOutput (i + 1)
            \<and> map_of (outputs p) (int i + 1) = None))"
  using runnerLoop_raises [of fn 0 "inputs p" "p\<lparr>inputs_with_errors := []\<rparr>" "[]"]
  by (simp add: runner_def Let_def map_of_eq_None_iff)

text \<open>
  Claim C2. The runners raise only when the expected output of some test case is
  missing. The group runner does so (lemma \<open>runner_raises_only_missing\<close>). The
  single-value runner tests \<^verbatim>\<open>!expected\<close> on the first expected record, which also
  holds for a falsy record: with the input file of one number and the output file
  \<^verbatim>\<open>1 0\<close>, \<^verbatim>\<open>initialize()\<close> succeeds, the map has the entry \<open>[0]\<close> for index 1, and
  the single-value runner raises the missing-output error for test case 1, where the
  group runner completes.
\<close>

theorem simpleRunner_falsy_expected:
  "\<not> isl (initialize plainEngine [''in.txt'' \<mapsto> ''1\<newline>5'', ''uit.txt'' \<mapsto> ''1 0'']
            (newParser ''in.txt'' ''uit.txt'' (\<lambda>line. line) indexedNumber (pureCompare (=)) True))
   \<and> inputs (projr (initialize plainEngine [''in.txt'' \<mapsto> ''1\<newline>5'', ''uit.txt'' \<mapsto> ''1 0'']
            (newParser ''in.txt'' ''uit.txt'' (\<lambda>line. line) indexedNumber (pureCompare (=)) True)))
       = [[Some ''5'']]
   \<and> map_of (outputs (projr (initialize plainEngine [''in.txt'' \<mapsto> ''1\<newline>5'', ''uit.txt'' \<mapsto> ''1 0'']
            (newParser ''in.txt'' ''uit.txt'' (\<lambda>line. line) indexedNumber (pureCompare (=)) True)))) 1
       = Some [0]
   \<and> fst (simpleRunner (\<lambda>v. v = 0)
            (projr (initialize plainEngine [''in.txt'' \<mapsto> ''1\<newline>5'', ''uit.txt'' \<mapsto> ''1 0'']
               (newParser ''in.txt'' ''uit.txt'' (\<lambda>line. line) indexedNumber (pureCompare (=)) True)))
            (\<lambda>input. (0, input)))
       = Some (NoExpectedOutput 1)
   \<and> fst (runner
            (projr (initialize plainEngine [''in.txt'' \<mapsto> ''1\<newline>5'', ''uit.txt'' \<mapsto> ''1 0'']
               (newParser ''in.txt'' ''uit.txt'' (\<lambda>line. line) indexedNumber (pureCompare (=)) True)))
            (\<lambda>inputGroup. ([0], inputGroup)))
       = None"
  by code_simp

end
